theory Spec2Isabelle
  imports Complex_Main "HOL-Library.Sublist"
begin

section \<open>Usage cost accountant: \<open>src/llm/pricing.py\<close>\<close>

text \<open>
  Python integers are modelled as \<open>int\<close> and the floats of the pricing code as the real
  numbers they denote: the rounding of float arithmetic, and the \<open>OverflowError\<close> of a
  division of integers whose quotient is beyond the range of a float, are not modelled.
  Apart from that, the only exception the pricing code can raise by itself is the
  division by a zero \<open>unit\<close>.
\<close>

datatype py_error = ZeroDivisionError

text \<open>One element of \<open>pricing["tiers"]\<close> as \<open>_load_pricing\<close> builds it.\<close>

record tier =
  threshold :: int
  input_cost :: real
  output_cost :: real

text \<open>
  One value of \<open>_pricing_cache\<close>. The Python dictionaries have the keys \<open>type\<close>,
  \<open>unit\<close> and either \<open>input_cost\<close>/\<open>output_cost\<close> (simple) or \<open>tiers\<close> (tiered);
  the fields a dictionary lacks are never read and are filled with \<open>0\<close> and \<open>[]\<close> here.
\<close>

record pricing =
  ptype :: string
  punit :: int
  pinput_cost :: real
  poutput_cost :: real
  ptiers :: "tier list"

type_synonym pricing_cache = "string \<rightharpoonup> pricing"

text \<open>The \<open>pricing\<close> dictionary of one model in the configuration file.\<close>

record pricing_cfg =
  cfg_unit :: "int option"
  cfg_tiers :: "tier list option"
  cfg_input_cost :: "real option"
  cfg_output_cost :: "real option"

definition opt_default :: "'a \<Rightarrow> 'a option \<Rightarrow> 'a" where
  "opt_default d v = (case v of None \<Rightarrow> d | Some x \<Rightarrow> x)"

text \<open>
  The body of the loop of \<open>_load_pricing\<close> for one model whose \<open>pricing\<close> dictionary
  is not empty: the unit defaults to one million, tiers are sorted by threshold
  (Python's sort is stable, as \<open>sort_key\<close> is).
\<close>

definition load_entry :: "pricing_cfg \<Rightarrow> pricing" where
  "load_entry c =
     (let u = opt_default 1000000 (cfg_unit c) in
      case cfg_tiers c of
        Some ts \<Rightarrow>
          \<lparr>ptype = ''tiered'', punit = u, pinput_cost = 0, poutput_cost = 0,
           ptiers = sort_key threshold ts\<rparr>
      | None \<Rightarrow>
          \<lparr>ptype = ''simple'', punit = u,
           pinput_cost = opt_default 0 (cfg_input_cost c),
           poutput_cost = opt_default 0 (cfg_output_cost c), ptiers = []\<rparr>)"

text \<open>Python's true division \<open>a / b\<close> of two integers.\<close>

definition py_truediv :: "int \<Rightarrow> int \<Rightarrow> py_error + real" where
  "py_truediv a b = (if b = 0 then Inl ZeroDivisionError else Inr (real_of_int a / real_of_int b))"

text \<open>\<open>current_tier.get(cost_type, 0.0)\<close>.\<close>

definition tier_get :: "tier \<Rightarrow> string \<Rightarrow> real" where
  "tier_get t k =
     (if k = ''input_cost'' then input_cost t
      else if k = ''output_cost'' then output_cost t
      else if k = ''threshold'' then real_of_int (threshold t)
      else 0)"

text \<open>
  The \<open>for i, tier in enumerate(tiers)\<close> loop that finds the starting tier:
  \<open>i\<close> is the position of the head of the remaining list, \<open>idx\<close> is
  \<open>current_tier_idx\<close>. The loop breaks at the first tier above the cumulative count.
\<close>

fun find_start_tier :: "tier list \<Rightarrow> int \<Rightarrow> nat \<Rightarrow> nat \<Rightarrow> nat" where
  "find_start_tier [] cum i idx = idx"
| "find_start_tier (t # ts) cum i idx =
     (if cum \<ge> threshold t then find_start_tier ts cum (Suc i) i else idx)"

text \<open>The \<open>while tokens_remaining > 0 and current_tier_idx < len(tiers)\<close> loop.\<close>

function tier_loop ::
  "tier list \<Rightarrow> int \<Rightarrow> string \<Rightarrow> nat \<Rightarrow> int \<Rightarrow> int \<Rightarrow> real \<Rightarrow> py_error + real" where
  "tier_loop tiers u ct idx remaining cum total_cost =
     (if remaining > 0 \<and> idx < length tiers then
        (let rate = tier_get (tiers ! idx) ct;
             at_rate =
               (if idx + 1 < length tiers
                then min remaining (threshold (tiers ! (idx + 1)) - cum)
                else remaining)
         in case py_truediv at_rate u of
              Inl e \<Rightarrow> Inl e
            | Inr q \<Rightarrow>
                tier_loop tiers u ct (idx + 1) (remaining - at_rate) (cum + at_rate)
                  (total_cost + q * rate))
      else Inr total_cost)"
  by pat_completeness auto
termination
  by (relation "measure (\<lambda>(tiers, u, ct, idx, remaining, cum, total_cost). length tiers - idx)") auto

declare tier_loop.simps [simp del]

definition calculate_tiered_cost ::
  "int \<Rightarrow> int \<Rightarrow> tier list \<Rightarrow> int \<Rightarrow> string \<Rightarrow> py_error + real" where
  "calculate_tiered_cost tokens cumulative_tokens tiers u cost_type =
     (if tokens = 0 \<or> tiers = [] then Inr 0
      else tier_loop tiers u cost_type (find_start_tier tiers cumulative_tokens 0 0)
             tokens cumulative_tokens 0)"

definition calculate_cost ::
  "pricing_cache \<Rightarrow> string \<Rightarrow> int \<Rightarrow> int \<Rightarrow> int \<Rightarrow> int \<Rightarrow> py_error + (real \<times> real \<times> real)" where
  "calculate_cost cache model_key input_tokens output_tokens cum_in cum_out =
     (case cache model_key of
        None \<Rightarrow> Inr (0, 0, 0)
      | Some p \<Rightarrow>
          if ptype p = ''simple'' then
            (case py_truediv input_tokens (punit p) of
               Inl e \<Rightarrow> Inl e
             | Inr qi \<Rightarrow>
                 (case py_truediv output_tokens (punit p) of
                    Inl e \<Rightarrow> Inl e
                  | Inr qo \<Rightarrow>
                      Inr (qi * pinput_cost p, qo * poutput_cost p,
                           qi * pinput_cost p + qo * poutput_cost p)))
          else if ptype p = ''tiered'' then
            (case calculate_tiered_cost input_tokens cum_in (ptiers p) (punit p) ''input_cost'' of
               Inl e \<Rightarrow> Inl e
             | Inr ic \<Rightarrow>
                 (case calculate_tiered_cost output_tokens cum_out (ptiers p) (punit p)
                         ''output_cost'' of
                    Inl e \<Rightarrow> Inl e
                  | Inr oc \<Rightarrow> Inr (ic, oc, ic + oc)))
          else Inr (0, 0, 0))"

definition has_pricing :: "pricing_cache \<Rightarrow> string \<Rightarrow> bool" where
  "has_pricing cache model_key = (cache model_key \<noteq> None)"

subsection \<open>The tiered rule in the words of the specification\<close>

text \<open>
  The tier \<open>t\<close> with \<open>threshold[t] \<le> cumulative < threshold[t+1]\<close>; the last tier has
  no upper boundary.
\<close>

definition spec_tier_of :: "tier list \<Rightarrow> int \<Rightarrow> nat option" where
  "spec_tier_of ts cum =
     find (\<lambda>t. threshold (ts ! t) \<le> cum \<and> (Suc t = length ts \<or> cum < threshold (ts ! Suc t)))
       [0..<length ts]"

text \<open>
  Charging from tier \<open>t\<close> on: \<open>min(remaining, threshold[t+1] - cumulative)\<close> tokens at
  the rate of tier \<open>t\<close>, then the next tier with cumulative and remaining advanced; the
  final tier takes everything that remains.
\<close>

function spec_charge :: "tier list \<Rightarrow> int \<Rightarrow> string \<Rightarrow> nat \<Rightarrow> int \<Rightarrow> int \<Rightarrow> real" where
  "spec_charge ts u ct t cum remaining =
     (if remaining \<le> 0 \<or> length ts \<le> t then 0
      else if Suc t = length ts then
        real_of_int remaining / real_of_int u * tier_get (ts ! t) ct
      else
        (let k = min remaining (threshold (ts ! Suc t) - cum)
         in real_of_int k / real_of_int u * tier_get (ts ! t) ct
            + spec_charge ts u ct (Suc t) (cum + k) (remaining - k)))"
  by pat_completeness auto
termination
  by (relation "measure (\<lambda>(ts, u, ct, t, cum, remaining). length ts - t)") auto

declare spec_charge.simps [simp del]

definition spec_tiered_cost :: "tier list \<Rightarrow> int \<Rightarrow> string \<Rightarrow> int \<Rightarrow> int \<Rightarrow> real" where
  "spec_tiered_cost ts u ct tokens cum =
     (case spec_tier_of ts cum of
        None \<Rightarrow> 0
      | Some t \<Rightarrow> spec_charge ts u ct t cum tokens)"

text \<open>
  The rule as the code applies it to every cumulative count: when the count is below
  the first threshold no tier holds it, and charging starts at the first tier.
\<close>

definition start_tier :: "tier list \<Rightarrow> int \<Rightarrow> nat" where
  "start_tier ts cum = (case spec_tier_of ts cum of None \<Rightarrow> 0 | Some t \<Rightarrow> t)"

definition amended_tiered_cost :: "tier list \<Rightarrow> int \<Rightarrow> string \<Rightarrow> int \<Rightarrow> int \<Rightarrow> real" where
  "amended_tiered_cost ts u ct tokens cum = spec_charge ts u ct (start_tier ts cum) cum tokens"

text \<open>
  The rate of one token, by its position: the rate of the tier that the count of tokens
  billed before it falls into.
\<close>

definition token_rate :: "tier list \<Rightarrow> string \<Rightarrow> int \<Rightarrow> real" where
  "token_rate ts ct p = (case spec_tier_of ts p of None \<Rightarrow> 0 | Some t \<Rightarrow> tier_get (ts ! t) ct)"

text \<open>The two tiers of the specification's example, per 1000 tokens.\<close>

definition example_tiers :: "tier list" where
  "example_tiers =
     [\<lparr>threshold = 0, input_cost = 10, output_cost = 10\<rparr>,
      \<lparr>threshold = 1000, input_cost = 5, output_cost = 5\<rparr>]"

definition example_cache :: pricing_cache where
  "example_cache =
     [''OpenAI:gpt-x'' \<mapsto>
        load_entry \<lparr>cfg_unit = Some 1000, cfg_tiers = Some example_tiers,
                    cfg_input_cost = None, cfg_output_cost = None\<rparr>]"

text \<open>
  Three tiers whose first threshold is 100, per 1000 tokens: a cumulative count of 0
  is below every threshold.
\<close>

definition below_tiers :: "tier list" where
  "below_tiers =
     [\<lparr>threshold = 100, input_cost = 10, output_cost = 10\<rparr>,
      \<lparr>threshold = 200, input_cost = 5, output_cost = 5\<rparr>,
      \<lparr>threshold = 300, input_cost = 1, output_cost = 1\<rparr>]"

definition below_cache :: pricing_cache where
  "below_cache =
     [''OpenAI:gpt-y'' \<mapsto>
        load_entry \<lparr>cfg_unit = Some 1000, cfg_tiers = Some below_tiers,
                    cfg_input_cost = None, cfg_output_cost = None\<rparr>]"

section \<open>Token usage tracking: \<open>src/llm/token_tracker.py\<close>\<close>

record token_usage =
  u_timestamp :: string
  u_provider :: string
  u_model :: string
  u_input_tokens :: int
  u_output_tokens :: int
  u_total_tokens :: int
  u_profile :: "string option"
  u_input_cost :: real
  u_output_cost :: real
  u_total_cost :: real

text \<open>One value of \<open>usage_by_model\<close>, and the \<open>total_usage\<close> part of a summary.\<close>

record usage_agg =
  a_input_tokens :: int
  a_output_tokens :: int
  a_total_tokens :: int
  a_call_count :: int
  a_input_cost :: real
  a_output_cost :: real
  a_total_cost :: real

record usage_summary =
  total_usage :: usage_agg
  by_model :: "string \<rightharpoonup> usage_agg"
  history :: "token_usage list"

text \<open>
  The tracker object. \<open>lock_held\<close> is the state of \<open>self._lock\<close>, a
  \<open>threading.Lock\<close>, which is not reentrant: acquiring it while it is held blocks
  until some other thread releases it. \<open>files\<close> is the part of the file system that
  \<open>_save_to_file\<close> writes (writing is assumed to succeed).
\<close>

record token_tracker =
  usage_history :: "token_usage list"
  usage_by_model :: "string \<rightharpoonup> usage_agg"
  lock_held :: bool
  output_file :: "string option"
  cumulative_tokens :: "string \<rightharpoonup> (int \<times> int)"
  files :: "string \<rightharpoonup> usage_summary"

definition new_tracker :: token_tracker where
  "new_tracker =
     \<lparr>usage_history = [], usage_by_model = Map.empty, lock_held = False, output_file = None,
      cumulative_tokens = Map.empty, files = Map.empty\<rparr>"

text \<open>
  Calls are run by one thread. An operation returns \<open>None\<close> when that thread never
  comes back from it: \<open>with self._lock\<close> entered while the same thread holds the lock.
\<close>

definition acquire :: "token_tracker \<Rightarrow> token_tracker option" where
  "acquire t = (if lock_held t then None else Some (t\<lparr>lock_held := True\<rparr>))"

definition release :: "token_tracker \<Rightarrow> token_tracker" where
  "release t = t\<lparr>lock_held := False\<rparr>"

definition summary_of :: "token_tracker \<Rightarrow> usage_summary" where
  "summary_of t =
     \<lparr>total_usage =
        \<lparr>a_input_tokens = sum_list (map u_input_tokens (usage_history t)),
         a_output_tokens = sum_list (map u_output_tokens (usage_history t)),
         a_total_tokens = sum_list (map u_total_tokens (usage_history t)),
         a_call_count = int (length (usage_history t)),
         a_input_cost = sum_list (map u_input_cost (usage_history t)),
         a_output_cost = sum_list (map u_output_cost (usage_history t)),
         a_total_cost = sum_list (map u_total_cost (usage_history t))\<rparr>,
      by_model = usage_by_model t,
      history = usage_history t\<rparr>"

definition get_summary :: "token_tracker \<Rightarrow> (usage_summary \<times> token_tracker) option" where
  "get_summary t =
     (case acquire t of
        None \<Rightarrow> None
      | Some t1 \<Rightarrow> Some (summary_of t1, release t1))"

definition save_to_file :: "token_tracker \<Rightarrow> token_tracker option" where
  "save_to_file t =
     (case output_file t of
        None \<Rightarrow> Some t
      | Some f \<Rightarrow>
          (case get_summary t of
             None \<Rightarrow> None
           | Some (d, t1) \<Rightarrow> Some (t1\<lparr>files := (files t1)(f \<mapsto> d)\<rparr>)))"

definition set_output_file :: "token_tracker \<Rightarrow> string \<Rightarrow> token_tracker option" where
  "set_output_file t file_path = save_to_file (t\<lparr>output_file := Some file_path\<rparr>)"

definition empty_agg :: usage_agg where
  "empty_agg =
     \<lparr>a_input_tokens = 0, a_output_tokens = 0, a_total_tokens = 0, a_call_count = 0,
      a_input_cost = 0, a_output_cost = 0, a_total_cost = 0\<rparr>"

text \<open>
  \<open>track_usage\<close>; \<open>stamp\<close> stands for \<open>datetime.now().isoformat()\<close>. The whole body runs
  inside \<open>with self._lock\<close>, the call of \<open>_save_to_file\<close> included.
\<close>

definition track_usage ::
  "token_tracker \<Rightarrow> string \<Rightarrow> string \<Rightarrow> string \<Rightarrow> int \<Rightarrow> int \<Rightarrow> string option \<Rightarrow>
   real \<Rightarrow> real \<Rightarrow> real \<Rightarrow> token_tracker option" where
  "track_usage t stamp provider model input_tokens output_tokens profile ic oc tc =
     (case acquire t of
        None \<Rightarrow> None
      | Some t1 \<Rightarrow>
          (let usage =
                 \<lparr>u_timestamp = stamp, u_provider = provider, u_model = model,
                  u_input_tokens = input_tokens, u_output_tokens = output_tokens,
                  u_total_tokens = input_tokens + output_tokens, u_profile = profile,
                  u_input_cost = ic, u_output_cost = oc, u_total_cost = tc\<rparr>;
               t2 = t1\<lparr>usage_history := usage_history t1 @ [usage]\<rparr>;
               model_key = provider @ '':'' @ model;
               a = opt_default empty_agg (usage_by_model t2 model_key);
               a' = a\<lparr>a_input_tokens := a_input_tokens a + input_tokens,
                       a_output_tokens := a_output_tokens a + output_tokens,
                       a_total_tokens := a_total_tokens a + (input_tokens + output_tokens),
                       a_call_count := a_call_count a + 1,
                       a_input_cost := a_input_cost a + ic,
                       a_output_cost := a_output_cost a + oc,
                       a_total_cost := a_total_cost a + tc\<rparr>;
               t3 = t2\<lparr>usage_by_model := (usage_by_model t2)(model_key \<mapsto> a')\<rparr>;
               c = opt_default (0, 0) (cumulative_tokens t3 model_key);
               t4 = t3\<lparr>cumulative_tokens :=
                         (cumulative_tokens t3)
                           (model_key \<mapsto> (fst c + input_tokens, snd c + output_tokens))\<rparr>
           in case (if output_file t4 \<noteq> None then save_to_file t4 else Some t4) of
                None \<Rightarrow> None
              | Some t5 \<Rightarrow> Some (release t5)))"

definition get_cumulative_tokens :: "token_tracker \<Rightarrow> string \<Rightarrow> ((int \<times> int) \<times> token_tracker) option" where
  "get_cumulative_tokens t model_key =
     (case acquire t of
        None \<Rightarrow> None
      | Some t1 \<Rightarrow> Some (opt_default (0, 0) (cumulative_tokens t1 model_key), release t1))"

section \<open>Steering channel and investigation scheduler: \<open>src/commands/agent.py\<close>\<close>

subsection \<open>Python strings and floats\<close>

text \<open>
  A Python \<open>str\<close> is represented by its UTF-8 bytes. \<open>str.lower\<close> and \<open>str.strip\<close>
  work on Unicode (case mappings, Unicode white space); they are library functions and
  are parameters of the model (\<open>str_lower\<close> and \<open>str_strip\<close> below). The other string
  operations of the source (\<open>in\<close>, \<open>startswith\<close>, equality, emptiness) are the same on
  bytes as on code points.
\<close>

text \<open>\<open>pat in s\<close> for strings: \<open>pat\<close> occurs in \<open>s\<close> as a contiguous block.\<close>

fun py_in :: "string \<Rightarrow> string \<Rightarrow> bool" where
  "py_in pat [] = (pat = [])"
| "py_in pat (c # cs) = (prefix pat (c # cs) \<or> py_in pat cs)"

text \<open>\<open>any(k in low for k in keys)\<close>.\<close>

definition any_in :: "string list \<Rightarrow> string \<Rightarrow> bool" where
  "any_in keys low = list_ex (\<lambda>k. py_in k low) keys"

text \<open>\<open>xs[:n]\<close> and \<open>xs[-n:]\<close> for an integer \<open>n\<close> of either sign.\<close>

definition py_take :: "int \<Rightarrow> 'a list \<Rightarrow> 'a list" where
  "py_take n xs = (if 0 \<le> n then take (nat n) xs else take (length xs - nat (- n)) xs)"

definition py_last_n :: "int \<Rightarrow> 'a list \<Rightarrow> 'a list" where
  "py_last_n n xs =
     (if 0 < n then drop (length xs - nat n) xs
      else if n = 0 then xs
      else drop (nat (- n)) xs)"

text \<open>
  A Python \<open>float\<close> used as a timestamp: a finite value (taken as the real number it
  denotes), an infinity, or NaN. The comparisons are those of the floats: every
  comparison with NaN is false. \<open>f_truthy\<close> is the truth value of a float in a
  condition (\<open>if ts and ...\<close>): only zero is falsy.
\<close>

datatype pyfloat = Finite real | PInf | NInf | NaN

fun f_le :: "pyfloat \<Rightarrow> pyfloat \<Rightarrow> bool" where
  "f_le NaN b = False"
| "f_le a NaN = False"
| "f_le NInf b = True"
| "f_le a PInf = True"
| "f_le (Finite x) (Finite y) = (x \<le> y)"
| "f_le a b = False"

fun f_lt :: "pyfloat \<Rightarrow> pyfloat \<Rightarrow> bool" where
  "f_lt NaN b = False"
| "f_lt a NaN = False"
| "f_lt (Finite x) (Finite y) = (x < y)"
| "f_lt NInf NInf = False"
| "f_lt PInf b = False"
| "f_lt NInf b = True"
| "f_lt a PInf = True"
| "f_lt a b = False"

definition f_truthy :: "pyfloat \<Rightarrow> bool" where
  "f_truthy a = (a \<noteq> Finite 0)"

subsection \<open>Decoded JSON values\<close>

text \<open>
  What \<open>json.loads\<close> returns: a number is a Python \<open>int\<close> of any size or a \<open>float\<close>
  (the decoder accepts \<open>NaN\<close> and \<open>Infinity\<close>). The decoder itself is a library function
  and is a parameter of the model (\<open>json_loads\<close> below, \<open>None\<close> when it raises).
\<close>

datatype jval =
  JNull | JBool bool | JInt int | JFloat pyfloat | JStr string | JArr "jval list"
  | JObj "(string \<times> jval) list"

text \<open>Python truthiness, as \<open>or\<close> tests it.\<close>

fun truthy :: "jval \<Rightarrow> bool" where
  "truthy JNull = False"
| "truthy (JBool b) = b"
| "truthy (JInt i) = (i \<noteq> 0)"
| "truthy (JFloat f) = f_truthy f"
| "truthy (JStr s) = (s \<noteq> [])"
| "truthy (JArr xs) = (xs \<noteq> [])"
| "truthy (JObj kvs) = (kvs \<noteq> [])"

text \<open>\<open>obj.get(k)\<close> on a decoded object: the last binding of a repeated key wins.\<close>

definition obj_get :: "(string \<times> jval) list \<Rightarrow> string \<Rightarrow> jval" where
  "obj_get kvs k = (case map_of (rev kvs) k of None \<Rightarrow> JNull | Some v \<Rightarrow> v)"

subsection \<open>Data of the scheduler\<close>

text \<open>One element of the list \<open>_read_steering_entries\<close> returns: \<open>{'ts': ..., 'text': ...}\<close>.\<close>

record steer_entry =
  e_ts :: pyfloat
  e_text :: string

text \<open>An item of a planned batch (a \<open>SimpleNamespace\<close>); a missing \<open>frame_id\<close> reads as \<open>None\<close>.\<close>

record frame =
  f_goal :: string
  f_focus_areas :: "string list"
  f_priority :: int
  f_reasoning :: string
  f_category :: string
  f_expected_impact :: string
  f_frame_id :: "string option"

text \<open>A candidate the planner proposes (a dictionary, defaults applied).\<close>

record cand =
  c_goal :: string
  c_focus_areas :: "string list"
  c_priority :: int
  c_reasoning :: string
  c_category :: string
  c_expected_impact :: string

datatype plan_status = PLANNED | IN_PROGRESS | DONE | DROPPED

text \<open>A record of the plan store, as \<open>list\<close> and \<open>get\<close> return it.\<close>

record stored =
  s_frame_id :: "string option"
  s_question :: string
  s_artifact_refs :: "string list"
  s_priority :: int
  s_rationale :: string
  s_status :: plan_status

text \<open>
  The external worker, seen from the scheduler: one call of \<open>agent.investigate\<close>
  invokes the progress callback some number of times (each with a \<open>status\<close>), while
  the operator may append lines to the steering log, and then returns a report (here
  its \<open>hypotheses.total\<close>) or raises.
\<close>

datatype wstep = Callback string | SteerArrives string


datatype wresult = Report int | WorkerRaises

datatype exc = PlannerFailed | WorkerFailed

datatype signal = TimeLimitReached

text \<open>
  The collaborators outside \<open>src/\<close> are parameters: \<open>str.lower\<close> and \<open>str.strip\<close>, the
  JSON decoder, \<open>float\<close> on an \<open>int\<close> (\<open>None\<close>: OverflowError) and on a \<open>str\<close> (\<open>None\<close>:
  ValueError), the wall clock (\<open>clock k\<close> is what the \<open>k\<close>-th call of \<open>time.time()\<close>
  returns), the planner (\<open>Strategist.plan_next\<close>, by call number and requested count;
  \<open>None\<close> when it or the summaries it is given raise), the worker (by call number and
  goal), and the four operations of the plan store over its own state type \<open>'ps\<close>
  (\<open>None\<close> when an operation raises).
\<close>

record 'ps env =
  str_lower :: "string \<Rightarrow> string"
  str_strip :: "string \<Rightarrow> string"
  json_loads :: "string \<Rightarrow> jval option"
  int_float :: "int \<Rightarrow> pyfloat option"
  str_float :: "string \<Rightarrow> pyfloat option"
  clock :: "nat \<Rightarrow> real"
  plan_next :: "nat \<Rightarrow> int \<Rightarrow> cand list option"
  worker :: "nat \<Rightarrow> string \<Rightarrow> wstep list \<times> wresult"
  ps_list :: "'ps \<Rightarrow> plan_status \<Rightarrow> stored list option"
  ps_propose :: "'ps \<Rightarrow> cand \<Rightarrow> ((bool \<times> string) \<times> 'ps) option"
  ps_get :: "'ps \<Rightarrow> string \<Rightarrow> stored option option"
  ps_update_status :: "'ps \<Rightarrow> string \<Rightarrow> plan_status \<Rightarrow> 'ps option"

text \<open>
  The runner and the files it works on. \<open>cursor_file\<close> is the float that
  \<open>.hound/steering.cursor\<close> holds (\<open>None\<close>: absent, empty, unreadable or not the text of
  a float, all of which read as \<open>0.0\<close>); \<open>cursor_writable\<close> says whether writing it
  succeeds;
  \<open>steering_file\<close> holds the lines of \<open>.hound/steering.jsonl\<close> (\<open>None\<close>: absent or
  unreadable). \<open>invoked\<close> and \<open>status_log\<close> record the calls of
  \<open>agent.investigate\<close> (their goals) and of \<open>plan_store.update_status\<close>, in order.
\<close>

record 'ps runner =
  cursor_file :: "pyfloat option"
  cursor_writable :: bool
  steering_file :: "string list option"
  time_limit_minutes :: "int option"
  session_id :: "string option"
  plan_store :: "'ps option"
  last_applied_steer :: "string option"
  last_replan_steer :: "string option"
  abort_requested :: bool
  ticks :: nat
  planner_calls :: nat
  worker_calls :: nat
  start_overall :: real
  time_up :: bool
  results :: "(frame \<times> int) list"
  completed_investigations :: "string list"
  invoked :: "string list"
  status_log :: "(string \<times> plan_status) list"

subsection \<open>Steering helpers\<close>

text \<open>
  \<open>float(v or 0.0)\<close> on a decoded value; \<open>None\<close> when \<open>float\<close> raises (a list, an
  object, a string that is not a number, an integer beyond the range of a float).
\<close>

definition float_or_zero :: "'ps env \<Rightarrow> jval \<Rightarrow> pyfloat option" where
  "float_or_zero env v =
     (if \<not> truthy v then Some (Finite 0)
      else case v of
             JFloat f \<Rightarrow> Some f
           | JInt i \<Rightarrow> int_float env i
           | JBool b \<Rightarrow> Some (Finite 1)
           | JStr s \<Rightarrow> str_float env s
           | _ \<Rightarrow> None)"

text \<open>
  \<open>(obj.get('text') or obj.get('message') or obj.get('note') or '').strip()\<close>;
  \<open>None\<close> when the chosen value has no \<open>strip\<close> method.
\<close>

definition text_of_obj :: "'ps env \<Rightarrow> (string \<times> jval) list \<Rightarrow> string option" where
  "text_of_obj env kvs =
     (let v = (if truthy (obj_get kvs ''text'') then obj_get kvs ''text''
               else if truthy (obj_get kvs ''message'') then obj_get kvs ''message''
               else if truthy (obj_get kvs ''note'') then obj_get kvs ''note''
               else JStr [])
      in case v of JStr s \<Rightarrow> Some (str_strip env s) | _ \<Rightarrow> None)"

text \<open>\<open>float(v or '0')\<close> on the content of the cursor file.\<close>

definition get_last_consumed_steer_ts :: "'ps runner \<Rightarrow> pyfloat" where
  "get_last_consumed_steer_ts s = (case cursor_file s of None \<Rightarrow> Finite 0 | Some v \<Rightarrow> v)"

text \<open>
  \<open>str(float(ts))\<close> is written and reads back as the same float. A failed write is
  swallowed (\<open>except Exception: pass\<close>) and leaves the file as it was.
\<close>

definition set_last_consumed_steer_ts :: "'ps runner \<Rightarrow> pyfloat \<Rightarrow> 'ps runner" where
  "set_last_consumed_steer_ts s ts_new =
     (if cursor_writable s then s\<lparr>cursor_file := Some ts_new\<rparr> else s)"

text \<open>
  \<open>if ts and ts > self._get_last_consumed_steer_ts()\<close>: a zero timestamp is falsy, and
  a NaN timestamp is greater than nothing.
\<close>

definition consume_steer :: "'ps runner \<Rightarrow> pyfloat \<Rightarrow> 'ps runner" where
  "consume_steer s ts_new =
     (if f_truthy ts_new \<and> f_lt (get_last_consumed_steer_ts s) ts_new
      then set_last_consumed_steer_ts s ts_new else s)"

text \<open>
  The body of the loop of \<open>_read_steering_entries\<close> for one line: what it appends to
  \<open>out\<close>. A blank line is skipped; a decoded object gives an entry when its text is
  not empty; every failure inside the \<open>try\<close> (the decoder raising, a value that is not
  an object, a \<open>ts\<close> that \<open>float\<close> rejects, a text that is not a string) ends in the
  \<open>except\<close> branch, which appends the raw line with timestamp \<open>0.0\<close>.
\<close>

definition line_entries :: "'ps env \<Rightarrow> string \<Rightarrow> steer_entry list" where
  "line_entries env raw =
     (let line = str_strip env raw in
      if line = [] then []
      else
        (case json_loads env line of
           Some (JObj kvs) \<Rightarrow>
             (case float_or_zero env (obj_get kvs ''ts'') of
                None \<Rightarrow> [\<lparr>e_ts = Finite 0, e_text = line\<rparr>]
              | Some t \<Rightarrow>
                  (case text_of_obj env kvs of
                     None \<Rightarrow> [\<lparr>e_ts = Finite 0, e_text = line\<rparr>]
                   | Some txt \<Rightarrow> if txt \<noteq> [] then [\<lparr>e_ts = t, e_text = txt\<rparr>] else []))
         | _ \<Rightarrow> [\<lparr>e_ts = Finite 0, e_text = line\<rparr>]))"

definition all_steering_entries :: "'ps env \<Rightarrow> string list \<Rightarrow> steer_entry list" where
  "all_steering_entries env lines = concat (map (line_entries env) lines)"

definition read_steering_entries :: "'ps env \<Rightarrow> 'ps runner \<Rightarrow> int \<Rightarrow> steer_entry list" where
  "read_steering_entries env s limit =
     (case steering_file s of
        None \<Rightarrow> []
      | Some lines \<Rightarrow> py_last_n limit (all_steering_entries env lines))"

definition urgent_verbs :: "string list" where
  "urgent_verbs =
     [''investigate'', ''investtgate'', ''investigate'', ''check'', ''look at'', ''look into'',
      ''focus on'', ''analyze'', ''audit'', ''review'', ''examine'', ''scan'', ''probe'',
      ''dig into'', ''right now'', ''next'', ''please investigate'', ''please check'']"

definition global_markers :: "string list" where
  "global_markers =
     [''whole app'', ''entire app'', ''entire codebase'', ''whole codebase'', ''all contracts'',
      ''every contract'', ''system-wide'', ''system wide'', ''project-wide'', ''project wide'',
      ''across the codebase'', ''across the repo'', ''across modules'', ''end-to-end'', ''e2e'',
      ''globally'', ''everywhere'', ''full audit'', ''full review'', ''scan the entire'',
      ''scan all'']"

text \<open>The test at the end of the loop of \<open>_find_latest_urgent_steer\<close>, on the stripped text.\<close>

definition is_urgent :: "'ps env \<Rightarrow> string \<Rightarrow> bool" where
  "is_urgent env txt =
     (any_in urgent_verbs (str_lower env txt) \<or> any_in global_markers (str_lower env txt))"

text \<open>
  The loop \<open>for ent in reversed(entries)\<close>; the argument is the reversed list. An entry
  is passed over when \<open>ts <= last_ts\<close> holds, which it never does for a NaN timestamp.
\<close>

fun scan_urgent :: "'ps env \<Rightarrow> pyfloat \<Rightarrow> steer_entry list \<Rightarrow> steer_entry option" where
  "scan_urgent env last_ts [] = None"
| "scan_urgent env last_ts (ent # rest) =
     (if f_le (e_ts ent) last_ts then scan_urgent env last_ts rest
      else if is_urgent env (str_strip env (e_text ent))
        then Some \<lparr>e_ts = e_ts ent, e_text = str_strip env (e_text ent)\<rparr>
      else scan_urgent env last_ts rest)"

definition find_latest_urgent_steer :: "'ps env \<Rightarrow> 'ps runner \<Rightarrow> steer_entry option" where
  "find_latest_urgent_steer env s =
     scan_urgent env (get_last_consumed_steer_ts s) (rev (read_steering_entries env s 80))"

text \<open>The local function \<open>_is_global_steer\<close> of \<open>run\<close>.\<close>

definition is_global_steer :: "'ps env \<Rightarrow> string \<Rightarrow> bool" where
  "is_global_steer env txt =
     (let t = str_lower env txt in
      if t = [] then False
      else if any_in global_markers t then True
      else if py_in '' across '' t \<or> prefix ''across '' t then True
      else False)"

subsection \<open>Batch planning: \<open>_plan_investigations\<close>\<close>

definition truthy_id :: "string option \<Rightarrow> bool" where
  "truthy_id fid = (case fid of None \<Rightarrow> False | Some i \<Rightarrow> i \<noteq> [])"

definition add_id :: "string option \<Rightarrow> string list \<Rightarrow> string list" where
  "add_id fid ids = (case fid of None \<Rightarrow> ids | Some i \<Rightarrow> if i \<noteq> [] then i # ids else ids)"

definition urgent_frame :: "string \<Rightarrow> frame" where
  "urgent_frame g =
     \<lparr>f_goal = g, f_focus_areas = [], f_priority = 10,
      f_reasoning = ''User steering: prioritize immediately'', f_category = ''suspicion'',
      f_expected_impact = ''high'', f_frame_id = None\<rparr>"

definition frame_of_stored :: "stored \<Rightarrow> frame" where
  "frame_of_stored it =
     \<lparr>f_goal = s_question it, f_focus_areas = s_artifact_refs it, f_priority = s_priority it,
      f_reasoning = s_rationale it, f_category = ''aspect'', f_expected_impact = ''medium'',
      f_frame_id = s_frame_id it\<rparr>"

definition frame_of_cand :: "cand \<Rightarrow> string option \<Rightarrow> frame" where
  "frame_of_cand d fid =
     \<lparr>f_goal = c_goal d, f_focus_areas = c_focus_areas d, f_priority = c_priority d,
      f_reasoning = c_reasoning d, f_category = c_category d,
      f_expected_impact = c_expected_impact d, f_frame_id = fid\<rparr>"

text \<open>Step 0: an urgent steering directive becomes the first item and is consumed.\<close>

definition plan_urgent :: "'ps env \<Rightarrow> 'ps runner \<Rightarrow> frame list \<times> 'ps runner" where
  "plan_urgent env s =
     (case find_latest_urgent_steer env s of
        None \<Rightarrow> ([], s)
      | Some ent \<Rightarrow> ([urgent_frame (e_text ent)], consume_steer s (e_ts ent)))"

text \<open>Step 1: the records \<open>pending[:n]\<close> of the plan store with status PLANNED.\<close>

definition plan_pending :: "'ps env \<Rightarrow> 'ps runner \<Rightarrow> int \<Rightarrow> stored list" where
  "plan_pending env s n =
     (case plan_store s of
        None \<Rightarrow> []
      | Some ps \<Rightarrow>
          if truthy_id (session_id s) then
            (case ps_list env ps PLANNED of None \<Rightarrow> [] | Some pending \<Rightarrow> py_take n pending)
          else [])"

text \<open>
  The \<open>try\<close> block of step 3 for one candidate: \<open>(skip, frame_id, store)\<close>. When
  \<open>propose\<close> or \<open>get\<close> raises, \<open>frame_id\<close> is reset to \<open>None\<close> and the candidate is kept.
\<close>

definition propose_step ::
  "'ps env \<Rightarrow> 'ps option \<Rightarrow> string list \<Rightarrow> cand \<Rightarrow> bool \<times> string option \<times> 'ps option" where
  "propose_step env store existing_ids d =
     (case store of
        None \<Rightarrow> (False, None, None)
      | Some ps \<Rightarrow>
          (case ps_propose env ps d of
             None \<Rightarrow> (False, None, Some ps)
           | Some ((ok, fid), ps') \<Rightarrow>
               if ok then (False, Some fid, Some ps')
               else
                 (case ps_get env ps' fid of
                    None \<Rightarrow> (False, None, Some ps')
                  | Some existing \<Rightarrow>
                      (let st = (case existing of None \<Rightarrow> PLANNED | Some r \<Rightarrow> s_status r)
                       in (st = DONE \<or> st = IN_PROGRESS \<or> (st = PLANNED \<and> fid \<in> set existing_ids),
                           Some fid, Some ps')))))"

text \<open>The loop \<open>for d in planned\<close> of step 3.\<close>

fun top_up ::
  "'ps env \<Rightarrow> int \<Rightarrow> cand list \<Rightarrow> frame list \<Rightarrow> string list \<Rightarrow> 'ps option \<Rightarrow>
   frame list \<times> 'ps option" where
  "top_up env n [] prepared existing_ids store = (prepared, store)"
| "top_up env n (d # ds) prepared existing_ids store =
     (if int (length prepared) \<ge> n then (prepared, store)
      else
        (case propose_step env store existing_ids d of
           (skip, fid, store') \<Rightarrow>
             if skip then top_up env n ds prepared existing_ids store'
             else top_up env n ds (prepared @ [frame_of_cand d fid]) (add_id fid existing_ids)
                    store'))"

definition plan_investigations ::
  "'ps env \<Rightarrow> 'ps runner \<Rightarrow> int \<Rightarrow> (exc + frame list) \<times> 'ps runner" where
  "plan_investigations env s n =
     (case plan_urgent env s of
        (urgent, s0) \<Rightarrow>
          (let pending = plan_pending env s0 n;
               prepared = urgent @ map frame_of_stored pending;
               existing_ids = foldr add_id (map s_frame_id pending) []
           in if int (length prepared) \<ge> n then (Inr (py_take n prepared), s0)
              else
                (let need = max 0 (n - int (length prepared));
                     s1 = (if need > 0 then s0\<lparr>planner_calls := Suc (planner_calls s0)\<rparr> else s0)
                 in case (if need > 0 then plan_next env (planner_calls s0) need else Some []) of
                      None \<Rightarrow> (Inl PlannerFailed, s1)
                    | Some planned \<Rightarrow>
                        (case top_up env n planned prepared existing_ids (plan_store s1) of
                           (batch, store') \<Rightarrow> (Inr batch, s1\<lparr>plan_store := store'\<rparr>)))))"

subsection \<open>The execution loop: \<open>AgentRunner.run\<close>\<close>

text \<open>One call of \<open>time.time()\<close>.\<close>

definition now :: "'ps env \<Rightarrow> 'ps runner \<Rightarrow> real \<times> 'ps runner" where
  "now env s = (clock env (ticks s), s\<lparr>ticks := Suc (ticks s)\<rparr>)"

text \<open>
  \<open>if self.time_limit_minutes:\<close> followed by the comparison of the elapsed minutes
  with the limit. The three checks of \<open>run\<close> (top of the \<open>while\<close> loop, before each
  frame, inside the callback) all test \<open>elapsed >= limit\<close>, the second one written as
  \<open>limit - elapsed <= 0\<close>. No limit (\<open>None\<close> or \<open>0\<close>) reads no clock.
\<close>

definition limit_reached :: "'ps env \<Rightarrow> 'ps runner \<Rightarrow> bool \<times> 'ps runner" where
  "limit_reached env s =
     (case time_limit_minutes s of
        None \<Rightarrow> (False, s)
      | Some m \<Rightarrow>
          if m = 0 then (False, s)
          else (case now env s of
                  (t, s') \<Rightarrow> ((t - start_overall s) / 60 \<ge> real_of_int m, s')))"

definition remaining_exhausted :: "'ps env \<Rightarrow> 'ps runner \<Rightarrow> bool \<times> 'ps runner" where
  "remaining_exhausted env s =
     (case time_limit_minutes s of
        None \<Rightarrow> (False, s)
      | Some m \<Rightarrow>
          if m = 0 then (False, s)
          else (case now env s of
                  (t, s') \<Rightarrow> (real_of_int m - (t - start_overall s) / 60 \<le> 0, s')))"

text \<open>
  \<open>plan_store.update_status\<close> under \<open>if self.plan_store\<close> and \<open>try ... except: pass\<close>.
\<close>

definition update_status :: "'ps env \<Rightarrow> 'ps runner \<Rightarrow> string \<Rightarrow> plan_status \<Rightarrow> 'ps runner" where
  "update_status env s fid st =
     (case plan_store s of
        None \<Rightarrow> s
      | Some ps \<Rightarrow>
          (case ps_update_status env ps fid st of
             None \<Rightarrow> s\<lparr>status_log := status_log s @ [(fid, st)]\<rparr>
           | Some ps' \<Rightarrow> s\<lparr>plan_store := Some ps', status_log := status_log s @ [(fid, st)]\<rparr>))"

definition update_frame_status ::
  "'ps env \<Rightarrow> 'ps runner \<Rightarrow> string option \<Rightarrow> plan_status \<Rightarrow> 'ps runner" where
  "update_frame_status env s fid st =
     (case fid of
        None \<Rightarrow> s
      | Some i \<Rightarrow> if i \<noteq> [] then update_status env s i st else s)"

text \<open>
  The steering part of the progress callback \<open>_cb\<close>, run for the statuses
  \<open>analyzing\<close>, \<open>decision\<close> and \<open>executing\<close>: a new global directive requests an abort
  of the worker and is consumed. \<open>abort_requested\<close> is the flag
  \<open>agent._abort_requested\<close> that \<open>run\<close> reads and resets after the call of the
  worker. The class of the worker is not among the sources: \<open>agent.request_abort\<close> is
  taken to set that flag, which is what \<open>run\<close> expects of it (its comments: "Mark and
  request abort on the agent; outer loop will replan", "If an abort was requested
  (global steering), skip marking as completed and replan").
\<close>

definition cb_steer :: "'ps env \<Rightarrow> 'ps runner \<Rightarrow> 'ps runner" where
  "cb_steer env s =
     (case find_latest_urgent_steer env s of
        None \<Rightarrow> s
      | Some ent \<Rightarrow>
          if e_text ent \<noteq> [] \<and> Some (e_text ent) \<noteq> last_replan_steer s then
            (if is_global_steer env (e_text ent) then
               consume_steer
                 (s\<lparr>last_replan_steer := Some (e_text ent), abort_requested := True\<rparr>)
                 (e_ts ent)
             else s)
          else s)"

text \<open>
  The progress callback: the time limit first (raising \<open>_TimeLimitReached\<close>), then
  steering. Console output, telemetry and coverage tracking are not modelled.
\<close>

definition cb :: "'ps env \<Rightarrow> 'ps runner \<Rightarrow> string \<Rightarrow> signal option \<times> 'ps runner" where
  "cb env s status =
     (case limit_reached env s of
        (stop, s1) \<Rightarrow>
          if stop then (Some TimeLimitReached, s1)
          else if status = ''analyzing'' \<or> status = ''decision'' \<or> status = ''executing''
            then (None, cb_steer env s1)
          else (None, s1))"

definition steer_arrives :: "'ps runner \<Rightarrow> string \<Rightarrow> 'ps runner" where
  "steer_arrives s line =
     s\<lparr>steering_file := Some ((case steering_file s of None \<Rightarrow> [] | Some lines \<Rightarrow> lines) @ [line])\<rparr>"

text \<open>What happens during one call of the worker, up to a raising callback.\<close>

fun run_script :: "'ps env \<Rightarrow> 'ps runner \<Rightarrow> wstep list \<Rightarrow> signal option \<times> 'ps runner" where
  "run_script env s [] = (None, s)"
| "run_script env s (Callback status # rest) =
     (case cb env s status of
        (Some sig, s') \<Rightarrow> (Some sig, s')
      | (None, s') \<Rightarrow> run_script env s' rest)"
| "run_script env s (SteerArrives line # rest) = run_script env (steer_arrives s line) rest"

datatype inv_outcome = Returned int | TimeUp | Failed

text \<open>One call \<open>self.agent.investigate(inv.goal, ..., progress_callback=_cb)\<close>.\<close>

definition investigate :: "'ps env \<Rightarrow> 'ps runner \<Rightarrow> string \<Rightarrow> inv_outcome \<times> 'ps runner" where
  "investigate env s g =
     (case worker env (worker_calls s) g of
        (steps, res) \<Rightarrow>
          (case run_script env
                  (s\<lparr>worker_calls := Suc (worker_calls s), invoked := invoked s @ [g]\<rparr>) steps of
             (Some sig, s') \<Rightarrow> (TimeUp, s')
           | (None, s') \<Rightarrow>
               (case res of Report h \<Rightarrow> (Returned h, s') | WorkerRaises \<Rightarrow> (Failed, s'))))"

text \<open>
  The two nested \<open>try\<close> blocks around the call: any exception but the time limit
  leads to one retry; a second one leaves \<open>run\<close>.
\<close>

definition investigate_retry :: "'ps env \<Rightarrow> 'ps runner \<Rightarrow> string \<Rightarrow> inv_outcome \<times> 'ps runner" where
  "investigate_retry env s g =
     (case investigate env s g of
        (Failed, s') \<Rightarrow> investigate env s' g
      | r \<Rightarrow> r)"

text \<open>The mid-batch steering override at the head of the loop body.\<close>

definition steering_override :: "'ps env \<Rightarrow> 'ps runner \<Rightarrow> frame \<Rightarrow> frame \<times> 'ps runner" where
  "steering_override env s item =
     (case find_latest_urgent_steer env s of
        None \<Rightarrow> (item, s)
      | Some ent \<Rightarrow>
          if e_text ent \<noteq> [] \<and> Some (e_text ent) \<noteq> last_applied_steer s
             \<and> f_goal item \<noteq> e_text ent
          then (\<lparr>f_goal = e_text ent, f_focus_areas = [], f_priority = 10,
                 f_reasoning = ''User steering override'', f_category = ''suspicion'',
                 f_expected_impact = ''high'', f_frame_id = None\<rparr>,
                consume_steer (s\<lparr>last_applied_steer := Some (e_text ent)\<rparr>) (e_ts ent))
          else (item, s))"

datatype ctl = Next | Break | Raise

text \<open>
  What follows a call of the worker that returned a report: when an abort was
  requested during the call, the flag is reset and the loop is left without
  recording the frame; otherwise the frame is recorded, added to \<open>executed_frames\<close>
  and marked DONE.
\<close>

definition after_report ::
  "'ps env \<Rightarrow> string list \<Rightarrow> 'ps runner \<Rightarrow> frame \<Rightarrow> int \<Rightarrow> ctl \<times> string list \<times> 'ps runner" where
  "after_report env executed s item h =
     (if abort_requested s then (Break, executed, s\<lparr>abort_requested := False\<rparr>)
      else
        (Next, add_id (f_frame_id item) executed,
         update_frame_status env
           (s\<lparr>results := results s @ [(item, h)],
               completed_investigations := completed_investigations s @ [f_goal item]\<rparr>)
           (f_frame_id item) DONE))"

text \<open>
  The body of \<open>for idx, inv in enumerate(items)\<close> for one item. \<open>executed\<close> is the set
  \<open>executed_frames\<close>; the result says how the loop goes on.
\<close>

definition exec_frame ::
  "'ps env \<Rightarrow> string list \<Rightarrow> 'ps runner \<Rightarrow> frame \<Rightarrow> ctl \<times> string list \<times> 'ps runner" where
  "exec_frame env executed s item0 =
     (case steering_override env s item0 of
        (item, s1) \<Rightarrow>
          (case remaining_exhausted env s1 of
             (stop, s2) \<Rightarrow>
               if stop then (Break, executed, s2)
               else if truthy_id (f_frame_id item)
                       \<and> (case f_frame_id item of None \<Rightarrow> False | Some i \<Rightarrow> i \<in> set executed)
                 then (Next, executed, update_frame_status env s2 (f_frame_id item) DROPPED)
               else
                 (case now env (update_frame_status env s2 (f_frame_id item) IN_PROGRESS) of
                    (started, s3) \<Rightarrow>
                      (case investigate_retry env s3 (f_goal item) of
                         (TimeUp, s4) \<Rightarrow> (Break, executed, s4\<lparr>time_up := True\<rparr>)
                       | (Failed, s4) \<Rightarrow> (Raise, executed, s4)
                       | (Returned h, s4) \<Rightarrow> after_report env executed s4 item h))))"

fun exec_batch ::
  "'ps env \<Rightarrow> frame list \<Rightarrow> string list \<Rightarrow> 'ps runner \<Rightarrow> ctl \<times> 'ps runner" where
  "exec_batch env [] executed s = (Next, s)"
| "exec_batch env (item # rest) executed s =
     (case exec_frame env executed s item of
        (Next, executed', s') \<Rightarrow> exec_batch env rest executed' s'
      | (c, executed', s') \<Rightarrow> (c, s'))"

text \<open>
  \<open>items = self._plan_investigations(max(1, plan_n))\<close>, called again when the first
  call raises.
\<close>

definition plan_with_retry ::
  "'ps env \<Rightarrow> 'ps runner \<Rightarrow> int \<Rightarrow> (exc + frame list) \<times> 'ps runner" where
  "plan_with_retry env s plan_n =
     (case plan_investigations env s (max 1 plan_n) of
        (Inl e, s') \<Rightarrow> plan_investigations env s' (max 1 plan_n)
      | r \<Rightarrow> r)"

text \<open>\<open>final_status = 'interrupted' if 'time_up' in locals() and time_up else 'completed'\<close>.\<close>

definition final_status :: "'ps runner \<Rightarrow> string" where
  "final_status s = (if time_up s then ''interrupted'' else ''completed'')"

text \<open>
  The \<open>while True\<close> loop, with fuel counting planning rounds: \<open>None\<close> when the fuel
  runs out before the loop ends. A result is the status handed to
  \<open>session_tracker.finalize\<close>, or the exception that leaves \<open>run\<close>, with the last state.
  \<open>executed_frames\<close> starts empty in every round, as in the source.
\<close>

fun run_loop ::
  "'ps env \<Rightarrow> int \<Rightarrow> nat \<Rightarrow> 'ps runner \<Rightarrow> ((exc + string) \<times> 'ps runner) option" where
  "run_loop env plan_n 0 s = None"
| "run_loop env plan_n (Suc k) s =
     (case limit_reached env s of
        (stop, s1) \<Rightarrow>
          if stop then Some (Inr (final_status s1), s1)
          else
            (case plan_with_retry env s1 plan_n of
               (Inl e, s2) \<Rightarrow> Some (Inl e, s2)
             | (Inr items, s2) \<Rightarrow>
                 if items = [] then Some (Inr (final_status s2), s2)
                 else
                   (case exec_batch env items [] s2 of
                      (Raise, s3) \<Rightarrow> Some (Inl WorkerFailed, s3)
                    | (c, s3) \<Rightarrow>
                        if time_up s3 then Some (Inr (final_status s3), s3)
                        else run_loop env plan_n k s3)))"

definition run ::
  "'ps env \<Rightarrow> int \<Rightarrow> nat \<Rightarrow> 'ps runner \<Rightarrow> ((exc + string) \<times> 'ps runner) option" where
  "run env plan_n fuel s =
     (case now env s of
        (t0, s0) \<Rightarrow> run_loop env plan_n fuel (s0\<lparr>start_overall := t0, time_up := False, results := []\<rparr>))"

subsection \<open>A plan store for the examples\<close>

text \<open>
  Modelled from the spec: the plan store (\<open>analysis/plan_store.py\<close>, which is not among
  the sources). Section 4.1 of the specification: \<open>propose\<close> derives a stable
  \<open>frame_id\<close> from the question and returns the existing record's id with
  \<open>created = false\<close> when there is one, else inserts a PLANNED record; \<open>list\<close> orders by
  descending priority, ties by insertion order; \<open>update_status\<close> applies the valid
  transitions PLANNED to IN_PROGRESS, IN_PROGRESS to DONE, DROPPED or PLANNED, and
  PLANNED to DROPPED, and is a no-op for any other. It is used only to run the
  scheduler on concrete inputs; the theorems about the scheduler hold for every store.
\<close>

type_synonym spec_store = "stored list"

text \<open>
  Modelled from the spec: the stable \<open>frame_id\<close> that \<open>propose\<close> derives from the
  question (the normalisation and the hash are not specified; any injective choice does).
\<close>

definition spec_frame_id :: "cand \<Rightarrow> string" where
  "spec_frame_id d = ''frame:'' @ c_goal d"

text \<open>
  Modelled from the spec: \<open>list(session_id, status)\<close>, by descending priority, ties in
  insertion order.
\<close>

definition spec_list :: "spec_store \<Rightarrow> plan_status \<Rightarrow> stored list option" where
  "spec_list st status =
     Some (sort_key (\<lambda>r. - s_priority r) (filter (\<lambda>r. s_status r = status) st))"

text \<open>
  Modelled from the spec: \<open>propose\<close> returns \<open>(created, frame_id)\<close>; an existing record
  is returned unchanged, a new one is inserted as PLANNED.
\<close>

definition spec_propose :: "spec_store \<Rightarrow> cand \<Rightarrow> ((bool \<times> string) \<times> spec_store) option" where
  "spec_propose st d =
     (if list_ex (\<lambda>r. s_frame_id r = Some (spec_frame_id d)) st
      then Some ((False, spec_frame_id d), st)
      else Some ((True, spec_frame_id d),
                 st @ [\<lparr>s_frame_id = Some (spec_frame_id d), s_question = c_goal d,
                         s_artifact_refs = c_focus_areas d, s_priority = c_priority d,
                         s_rationale = c_reasoning d, s_status = PLANNED\<rparr>]))"

text \<open>Modelled from the spec: \<open>get(frame_id)\<close>, the frame or not-found.\<close>

definition spec_get :: "spec_store \<Rightarrow> string \<Rightarrow> stored option option" where
  "spec_get st fid = Some (find (\<lambda>r. s_frame_id r = Some fid) st)"

text \<open>Modelled from the spec: the valid transitions of \<open>update_status\<close>.\<close>

fun valid_transition :: "plan_status \<Rightarrow> plan_status \<Rightarrow> bool" where
  "valid_transition PLANNED IN_PROGRESS = True"
| "valid_transition IN_PROGRESS DONE = True"
| "valid_transition IN_PROGRESS DROPPED = True"
| "valid_transition IN_PROGRESS PLANNED = True"
| "valid_transition PLANNED DROPPED = True"
| "valid_transition a b = False"

text \<open>
  Modelled from the spec: \<open>update_status\<close>; a transition that is not valid is a no-op
  (reported as a failure, which the scheduler ignores).
\<close>

definition spec_update_status :: "spec_store \<Rightarrow> string \<Rightarrow> plan_status \<Rightarrow> spec_store option" where
  "spec_update_status st fid new_status =
     Some (map (\<lambda>r. if s_frame_id r = Some fid \<and> valid_transition (s_status r) new_status
                      then r\<lparr>s_status := new_status\<rparr> else r) st)"

subsection \<open>Concrete inputs\<close>

text \<open>Lines of a steering log and what \<open>json.loads\<close> makes of them.\<close>

definition line_check :: string where
  \<open>line_check = ''{"ts": 10, "text": "check the login function"}''\<close>

definition line_global :: string where
  \<open>line_global = ''{"ts": 20, "text": "audit the whole codebase"}''\<close>

definition line_later :: string where
  \<open>line_later = ''{"ts": 30, "text": "check the login function"}''\<close>

text \<open>A line whose timestamp is not a number; \<open>json.loads\<close> accepts the literal \<open>NaN\<close>.\<close>

definition line_nan :: string where
  \<open>line_nan = ''{"ts": NaN, "text": "check the login function"}''\<close>

definition example_loads :: "string \<Rightarrow> jval option" where
  "example_loads =
     map_of
       [(line_check, JObj [(''ts'', JInt 10), (''text'', JStr ''check the login function'')]),
        (line_global, JObj [(''ts'', JInt 20), (''text'', JStr ''audit the whole codebase'')]),
        (line_later, JObj [(''ts'', JInt 30), (''text'', JStr ''check the login function'')]),
        (line_nan, JObj [(''ts'', JFloat NaN), (''text'', JStr ''check the login function'')])]"

text \<open>
  \<open>str.lower\<close> and \<open>str.strip\<close> on ASCII text, which is all the examples use: the
  twenty-six capital letters are mapped to small ones, and the ASCII white space
  characters (codes 9 to 13 and 28 to 32) are removed at both ends.
\<close>

definition lower_char :: "char \<Rightarrow> char" where
  "lower_char c =
     (case map_of (zip ''ABCDEFGHIJKLMNOPQRSTUVWXYZ'' ''abcdefghijklmnopqrstuvwxyz'') c of
        None \<Rightarrow> c
      | Some l \<Rightarrow> l)"

definition ascii_lower :: "string \<Rightarrow> string" where
  "ascii_lower s = map lower_char s"

definition ascii_isspace :: "char \<Rightarrow> bool" where
  "ascii_isspace c =
     (let n = (of_char c :: nat) in (9 \<le> n \<and> n \<le> 13) \<or> (28 \<le> n \<and> n \<le> 32))"

definition ascii_strip :: "string \<Rightarrow> string" where
  "ascii_strip s = rev (dropWhile ascii_isspace (rev (dropWhile ascii_isspace s)))"

definition cand_of :: "string \<Rightarrow> cand" where
  "cand_of g =
     \<lparr>c_goal = g, c_focus_areas = [], c_priority = 5, c_reasoning = [],
      c_category = ''aspect'', c_expected_impact = ''medium''\<rparr>"

text \<open>
  A quiet environment: the ASCII string functions, \<open>float\<close> exact on the small
  integers of the examples, a clock that stands at \<open>0\<close>, a planner with nothing to
  propose, a worker that reports one hypothesis without calling back, and the plan
  store above.
\<close>

definition quiet_env :: "spec_store env" where
  "quiet_env =
     \<lparr>str_lower = ascii_lower, str_strip = ascii_strip, json_loads = example_loads,
      int_float = (\<lambda>i. Some (Finite (real_of_int i))), str_float = (\<lambda>x. None),
      clock = (\<lambda>k. 0),
      plan_next = (\<lambda>k n. Some []), worker = (\<lambda>k g. ([], Report 1)),
      ps_list = spec_list, ps_propose = spec_propose, ps_get = spec_get,
      ps_update_status = spec_update_status\<rparr>"

text \<open>A runner before \<open>run\<close>: no steering files, no time limit, no plan store.\<close>

definition idle_runner :: "spec_store runner" where
  "idle_runner =
     \<lparr>cursor_file = None, cursor_writable = True, steering_file = None,
      time_limit_minutes = None, session_id = Some ''session-1'', plan_store = None,
      last_applied_steer = None, last_replan_steer = None, abort_requested = False,
      ticks = 0, planner_calls = 0, worker_calls = 0, start_overall = 0, time_up = False,
      results = [], completed_investigations = [], invoked = [], status_log = []\<rparr>"

text \<open>
  A steering log whose oldest line is an urgent directive, followed by eighty plain
  notes that the JSON decoder rejects.
\<close>

definition crowded_runner :: "spec_store runner" where
  "crowded_runner = idle_runner\<lparr>steering_file := Some (line_check # replicate 80 ''ok'')\<rparr>"

text \<open>A three-line log: a JSON directive, a line that is not JSON, and a blank line.\<close>

definition example_log :: "string list" where
  "example_log = [line_check @ [CHR 0x0A], ''not json at all'' @ [CHR 0x0A], [CHR 0x0A]]"

text \<open>A runner whose steering log is the three-line example.\<close>

definition steered_runner :: "spec_store runner" where
  "steered_runner = idle_runner\<lparr>steering_file := Some example_log\<rparr>"

text \<open>A runner whose steering log is the line with the NaN timestamp.\<close>

definition nan_runner :: "spec_store runner" where
  "nan_runner = idle_runner\<lparr>steering_file := Some [line_nan]\<rparr>"

text \<open>A planner that proposes three goals whatever count it is asked for.\<close>

definition eager_env :: "spec_store env" where
  "eager_env =
     quiet_env\<lparr>plan_next := (\<lambda>k n. Some [cand_of ''A'', cand_of ''B'', cand_of ''C''])\<rparr>"

text \<open>
  A worker whose first call sees the operator append the global directive and then
  reports a decision through the callback.
\<close>

definition steered_env :: "spec_store env" where
  "steered_env =
     quiet_env\<lparr>worker := (\<lambda>k g. if k = 0 then ([SteerArrives line_global, Callback ''decision''], Report 1)
                              else ([], Report 1))\<rparr>"

text \<open>A runner whose steering log holds the global directive only.\<close>

definition global_runner :: "spec_store runner" where
  "global_runner = idle_runner\<lparr>steering_file := Some [line_global]\<rparr>"

text \<open>
  A one-minute limit. The planner proposes two goals in the first round. The clock
  stands at \<open>0\<close> for its first four readings and at 120 seconds from the fifth on:
  the first investigation takes two minutes. In \<open>past_env\<close> two minutes have already
  passed at the first check.
\<close>

definition deadline_runner :: "spec_store runner" where
  "deadline_runner = idle_runner\<lparr>time_limit_minutes := Some 1\<rparr>"

definition deadline_env :: "spec_store env" where
  "deadline_env =
     quiet_env\<lparr>clock := (\<lambda>k. if k < 4 then 0 else 120),
               plan_next := (\<lambda>k n. if k = 0 then Some [cand_of ''A'', cand_of ''B''] else Some [])\<rparr>"

definition past_env :: "spec_store env" where
  "past_env = deadline_env\<lparr>clock := (\<lambda>k. if k = 0 then 0 else 120)\<rparr>"

text \<open>The same, with a worker that calls back once: the callback sees the limit.\<close>

definition callback_env :: "spec_store env" where
  "callback_env = deadline_env\<lparr>worker := (\<lambda>k g. ([Callback ''decision''], Report 1))\<rparr>"

text \<open>
  A session whose plan store holds one frame, dropped earlier, and a planner that
  proposes the goal of that frame again in each of its first two calls. In
  \<open>twice_env\<close> the planner proposes it twice in one call.
\<close>

definition loop_runner :: "spec_store runner" where
  "loop_runner =
     idle_runner\<lparr>plan_store :=
       Some [\<lparr>s_frame_id = Some ''frame:G'', s_question = ''G'', s_artifact_refs = [],
               s_priority = 5, s_rationale = [], s_status = DROPPED\<rparr>]\<rparr>"

definition loop_env :: "spec_store env" where
  "loop_env = quiet_env\<lparr>plan_next := (\<lambda>k n. if k < 2 then Some [cand_of ''G''] else Some [])\<rparr>"

definition twice_env :: "spec_store env" where
  "twice_env =
     quiet_env\<lparr>plan_next := (\<lambda>k n. if k = 0 then Some [cand_of ''G'', cand_of ''G''] else Some [])\<rparr>"

text \<open>
  A second plan store for the examples, one that accepts every change of status (the
  source of the store is not available, so both behaviours are run), and a planner
  that proposes the goal twice in its first call and once more in its second.
\<close>

definition any_update_status :: "spec_store \<Rightarrow> string \<Rightarrow> plan_status \<Rightarrow> spec_store option" where
  "any_update_status st fid new_status =
     Some (map (\<lambda>r. if s_frame_id r = Some fid then r\<lparr>s_status := new_status\<rparr> else r) st)"

definition lenient_env :: "spec_store env" where
  "lenient_env =
     quiet_env\<lparr>plan_next := (\<lambda>k n. if k = 0 then Some [cand_of ''G'', cand_of ''G'']
                                    else if k = 1 then Some [cand_of ''G''] else Some []),
               ps_update_status := any_update_status\<rparr>"



section \<open>Verification of the cost accountant\<close>

subsection \<open>Tiered pricing\<close>

lemma find_start_tier_takeWhile:
  "find_start_tier ts cum i idx =
     (let k = length (takeWhile (\<lambda>t. threshold t \<le> cum) ts) in if k = 0 then idx else i + k - 1)"
  by (induction ts arbitrary: i idx) (auto simp: Let_def)

lemma find_first_index:
  assumes "k < n" "P k" "\<And>j. j < k \<Longrightarrow> \<not> P j"
  shows "find P [0..<n] = Some k"
  using assms
  by (auto simp: find_Some_iff intro!: exI[of _ k])

lemma takeWhile_prefix_holds:
  "j < length (takeWhile P xs) \<Longrightarrow> P (xs ! j)"
  by (metis nth_mem set_takeWhileD takeWhile_nth)

lemma spec_tier_of_takeWhile:
  assumes "ts \<noteq> []" "threshold (hd ts) \<le> cum"
  shows "spec_tier_of ts cum = Some (length (takeWhile (\<lambda>t. threshold t \<le> cum) ts) - 1)"
proof -
  let ?P = "\<lambda>t. threshold t \<le> cum"
  let ?k = "length (takeWhile ?P ts)"
  from assms have pos: "0 < ?k" by (cases ts) auto
  have le: "?k \<le> length ts" by (rule length_takeWhile_le)
  have inside: "\<And>j. j < ?k \<Longrightarrow> threshold (ts ! j) \<le> cum"
    by (rule takeWhile_prefix_holds)
  have stop: "?k < length ts \<Longrightarrow> \<not> threshold (ts ! ?k) \<le> cum"
    by (rule nth_length_takeWhile)
  show ?thesis
    unfolding spec_tier_of_def
  proof (rule find_first_index)
    show "?k - 1 < length ts" using pos le by linarith
    show "threshold (ts ! (?k - 1)) \<le> cum \<and>
          (Suc (?k - 1) = length ts \<or> cum < threshold (ts ! Suc (?k - 1)))"
      using pos le inside[of "?k - 1"] stop by (cases "?k = length ts") auto
    fix j assume "j < ?k - 1"
    then have "Suc j < ?k" by simp
    then have "threshold (ts ! Suc j) \<le> cum" "Suc j \<noteq> length ts"
      using inside[of "Suc j"] le by auto
    then show "\<not> (threshold (ts ! j) \<le> cum \<and> (Suc j = length ts \<or> cum < threshold (ts ! Suc j)))"
      by simp
  qed
qed

lemma spec_charge_done:
  "remaining \<le> 0 \<or> length ts \<le> t \<Longrightarrow> spec_charge ts u ct t cum remaining = 0"
  by (subst spec_charge.simps) simp

lemma tier_loop_spec:
  "u \<noteq> 0 \<Longrightarrow> tier_loop ts u ct idx remaining cum acc = Inr (acc + spec_charge ts u ct idx cum remaining)"
proof (induction ts u ct idx remaining cum acc rule: tier_loop.induct)
  case (1 tiers u ct idx remaining cum total_cost)
  show ?case
  proof (cases "remaining > 0 \<and> idx < length tiers")
    case False
    then have "spec_charge tiers u ct idx cum remaining = 0"
      by (intro spec_charge_done) auto
    with False show ?thesis
      by (subst tier_loop.simps) auto
  next
    case True
    let ?a = "if idx + 1 < length tiers
                then min remaining (threshold (tiers ! (idx + 1)) - cum)
                else remaining"
    let ?c = "real_of_int ?a / real_of_int u * tier_get (tiers ! idx) ct"
    have div: "py_truediv ?a u = Inr (real_of_int ?a / real_of_int u)"
      using "1.prems" by (simp add: py_truediv_def)
    have IH: "tier_loop tiers u ct (idx + 1) (remaining - ?a) (cum + ?a) (total_cost + ?c)
              = Inr (total_cost + ?c + spec_charge tiers u ct (idx + 1) (cum + ?a) (remaining - ?a))"
      by (rule "1.IH"[OF True refl refl div "1.prems"])
    have step: "tier_loop tiers u ct idx remaining cum total_cost =
       tier_loop tiers u ct (idx + 1) (remaining - ?a) (cum + ?a) (total_cost + ?c)"
      using True div by (subst tier_loop.simps) (simp add: Let_def)
    have s: "spec_charge tiers u ct idx cum remaining =
          ?c + spec_charge tiers u ct (idx + 1) (cum + ?a) (remaining - ?a)"
    proof (cases "Suc idx = length tiers")
      case last: True
      have z: "spec_charge tiers u ct (idx + 1) (cum + ?a) (remaining - ?a) = 0"
        using last by (intro spec_charge_done) simp
      have "spec_charge tiers u ct idx cum remaining =
          real_of_int remaining / real_of_int u * tier_get (tiers ! idx) ct"
        using True last by (subst spec_charge.simps) simp
      then show ?thesis using last by (simp only: z) simp
    next
      case notlast: False
      with True have lt: "Suc idx < length tiers" by simp
      show ?thesis
        using True notlast lt by (subst spec_charge.simps) (simp add: Let_def)
    qed
    show ?thesis by (simp only: step IH s add.assoc)
  qed
qed

lemma calculate_tiered_cost_spec:
  assumes "u \<noteq> 0" "tiers \<noteq> []" "threshold (hd tiers) \<le> cum"
  shows "calculate_tiered_cost tokens cum tiers u ct = Inr (spec_tiered_cost tiers u ct tokens cum)"
proof -
  have pos: "0 < length (takeWhile (\<lambda>t. threshold t \<le> cum) tiers)"
    using assms by (cases tiers) auto
  have st: "find_start_tier tiers cum 0 0 = length (takeWhile (\<lambda>t. threshold t \<le> cum) tiers) - 1"
    using pos by (simp add: find_start_tier_takeWhile Let_def)
  have sp: "spec_tiered_cost tiers u ct tokens cum =
      spec_charge tiers u ct (length (takeWhile (\<lambda>t. threshold t \<le> cum) tiers) - 1) cum tokens"
    by (simp add: spec_tiered_cost_def spec_tier_of_takeWhile[OF assms(2,3)])
  show ?thesis
  proof (cases "tokens = 0")
    case True
    have "spec_tiered_cost tiers u ct tokens cum = 0"
      unfolding sp by (rule spec_charge_done) (simp add: True)
    then show ?thesis
      using True by (simp add: calculate_tiered_cost_def)
  next
    case False
    then show ?thesis
      using assms by (simp add: calculate_tiered_cost_def sp st tier_loop_spec)
  qed
qed

lemma load_entry_tiers_sorted:
  "sorted (map threshold (ptiers (load_entry c)))"
  by (simp add: load_entry_def Let_def split: option.splits)

text \<open>
  With tiers sorted by threshold, as \<open>_load_pricing\<close> leaves them, at most one tier
  satisfies the condition of \<open>spec_tier_of\<close>: it is "the" tier the cumulative count
  falls into.
\<close>

lemma spec_tier_unique:
  assumes "sorted (map threshold ts)" and "t < length ts" and "t' < length ts"
    and "threshold (ts ! t) \<le> cum \<and> (Suc t = length ts \<or> cum < threshold (ts ! Suc t))"
    and "threshold (ts ! t') \<le> cum \<and> (Suc t' = length ts \<or> cum < threshold (ts ! Suc t'))"
  shows "t = t'"
proof -
  have mono: "\<And>i j. i \<le> j \<Longrightarrow> j < length ts \<Longrightarrow> threshold (ts ! i) \<le> threshold (ts ! j)"
    using assms(1) by (simp add: sorted_iff_nth_mono)
  have one: "\<And>a b. a < b \<Longrightarrow> b < length ts \<Longrightarrow>
      threshold (ts ! b) \<le> cum \<Longrightarrow> \<not> (Suc a = length ts \<or> cum < threshold (ts ! Suc a))"
  proof -
    fix a b assume ab: "a < b" "b < length ts" "threshold (ts ! b) \<le> cum"
    then have "threshold (ts ! Suc a) \<le> threshold (ts ! b)" by (intro mono) auto
    with ab show "\<not> (Suc a = length ts \<or> cum < threshold (ts ! Suc a))" by auto
  qed
  show ?thesis
  proof (rule ccontr)
    assume "t \<noteq> t'"
    then consider "t < t'" | "t' < t" by linarith
    then show False
      using one[of t t'] one[of t' t] assms(2-5) by cases blast+
  qed
qed

text \<open>
  What the rule amounts to: with sorted tiers, every one of the new tokens is billed at
  the rate of the tier its own position falls into, so a call that straddles a
  boundary is split there.
\<close>

lemma tier_of_position:
  assumes s: "sorted (map threshold ts)" and t: "t < length ts" and lo: "threshold (ts ! t) \<le> p"
    and hi: "Suc t = length ts \<or> p < threshold (ts ! Suc t)"
  shows "spec_tier_of ts p = Some t"
  unfolding spec_tier_of_def
proof (rule find_first_index)
  show "t < length ts" by (rule t)
  show "threshold (ts ! t) \<le> p \<and> (Suc t = length ts \<or> p < threshold (ts ! Suc t))"
    using lo hi by simp
  fix j assume j: "j < t"
  have "threshold (ts ! Suc j) \<le> threshold (ts ! t)"
    using s j t by (simp add: sorted_iff_nth_mono)
  with lo j t show "\<not> (threshold (ts ! j) \<le> p \<and> (Suc j = length ts \<or> p < threshold (ts ! Suc j)))"
    by auto
qed

lemma sum_const_interval:
  fixes c :: real and a b :: int
  assumes "a \<le> b" and "\<And>p. a \<le> p \<Longrightarrow> p < b \<Longrightarrow> f p = c"
  shows "sum f {a..<b} = real_of_int (b - a) * c"
proof -
  have "sum f {a..<b} = sum (\<lambda>p. c) {a..<b}"
    by (rule sum.cong) (auto simp: assms(2))
  also have "\<dots> = real_of_int (b - a) * c" using assms(1) by simp
  finally show ?thesis .
qed

lemma spec_charge_per_token:
  "sorted (map threshold ts) \<Longrightarrow> t < length ts \<Longrightarrow> threshold (ts ! t) \<le> cum \<Longrightarrow>
         (Suc t < length ts \<longrightarrow> cum \<le> threshold (ts ! Suc t)) \<Longrightarrow> 0 \<le> remaining \<Longrightarrow>
         spec_charge ts u ct t cum remaining
           = (\<Sum>p \<in> {cum..<cum + remaining}. token_rate ts ct p) / real_of_int u"
proof (induction ts u ct t cum remaining rule: spec_charge.induct)
  case (1 ts u ct t cum remaining)
  note s = "1.prems"(1) and t = "1.prems"(2) and lo = "1.prems"(3) and hi = "1.prems"(4)
    and nn = "1.prems"(5)
  show ?case
  proof (cases "remaining = 0")
    case True
    then show ?thesis by (simp add: spec_charge_done)
  next
    case False
    with nn have pos: "0 < remaining" by simp
    show ?thesis
    proof (cases "Suc t = length ts")
      case last: True
      have r: "\<And>p. cum \<le> p \<Longrightarrow> p < cum + remaining \<Longrightarrow> token_rate ts ct p = tier_get (ts ! t) ct"
      proof -
        fix p assume p: "cum \<le> p"
        with lo have "threshold (ts ! t) \<le> p" by simp
        from tier_of_position[OF s t this] last
        show "token_rate ts ct p = tier_get (ts ! t) ct" by (simp add: token_rate_def)
      qed
      have "spec_charge ts u ct t cum remaining
          = real_of_int remaining / real_of_int u * tier_get (ts ! t) ct"
        using pos t last by (subst spec_charge.simps) simp
      also have "\<dots> = (\<Sum>p \<in> {cum..<cum + remaining}. token_rate ts ct p) / real_of_int u"
        using sum_const_interval[of cum "cum + remaining" "token_rate ts ct" "tier_get (ts ! t) ct"] r nn
        by simp
      finally show ?thesis .
    next
      case notlast: False
      with t have lt: "Suc t < length ts" by simp
      define k where "k = min remaining (threshold (ts ! Suc t) - cum)"
      from hi lt have gap: "0 \<le> threshold (ts ! Suc t) - cum" by simp
      with nn have k0: "0 \<le> k" and kr: "k \<le> remaining" and kt: "cum + k \<le> threshold (ts ! Suc t)"
        by (simp_all add: k_def)
      have r: "\<And>p. cum \<le> p \<Longrightarrow> p < cum + k \<Longrightarrow> token_rate ts ct p = tier_get (ts ! t) ct"
      proof -
        fix p assume p: "cum \<le> p" "p < cum + k"
        with kt have "p < threshold (ts ! Suc t)" by simp
        moreover from lo p(1) have "threshold (ts ! t) \<le> p" by simp
        ultimately have "spec_tier_of ts p = Some t"
          using tier_of_position[OF s t, of p] by simp
        then show "token_rate ts ct p = tier_get (ts ! t) ct" by (simp add: token_rate_def)
      qed
      have first: "(\<Sum>p \<in> {cum..<cum + k}. token_rate ts ct p) = real_of_int k * tier_get (ts ! t) ct"
        using sum_const_interval[of cum "cum + k" "token_rate ts ct" "tier_get (ts ! t) ct"] r k0
        by simp
      have rest: "spec_charge ts u ct (Suc t) (cum + k) (remaining - k)
          = (\<Sum>p \<in> {cum + k..<cum + remaining}. token_rate ts ct p) / real_of_int u"
      proof (cases "remaining - k = 0")
        case True
        then show ?thesis by (simp add: spec_charge_done)
      next
        case False
        with kr have more: "k < remaining" by simp
        then have keq: "k = threshold (ts ! Suc t) - cum" by (simp add: k_def)
        have c: "\<not> (remaining \<le> 0 \<or> length ts \<le> t)" using pos t by simp
        have lo': "threshold (ts ! Suc t) \<le> cum + k" by (simp add: keq)
        have hi': "Suc (Suc t) < length ts \<longrightarrow> cum + k \<le> threshold (ts ! Suc (Suc t))"
          using s by (auto simp: keq sorted_iff_nth_mono)
        have nn': "0 \<le> remaining - k" using kr by simp
        from "1.IH"[OF c notlast k_def s lt lo' hi' nn']
        show ?thesis by (simp add: algebra_simps)
      qed
      have split: "{cum..<cum + remaining} = {cum..<cum + k} \<union> {cum + k..<cum + remaining}"
        using k0 kr by auto
      have disj: "{cum..<cum + k} \<inter> {cum + k..<cum + remaining} = {}" by auto
      have total: "(\<Sum>p \<in> {cum..<cum + remaining}. token_rate ts ct p)
          = real_of_int k * tier_get (ts ! t) ct
            + (\<Sum>p \<in> {cum + k..<cum + remaining}. token_rate ts ct p)"
        unfolding split by (subst sum.union_disjoint) (simp_all add: disj first)
      have "spec_charge ts u ct t cum remaining
          = real_of_int k / real_of_int u * tier_get (ts ! t) ct
            + spec_charge ts u ct (Suc t) (cum + k) (remaining - k)"
        using pos t notlast by (subst spec_charge.simps) (simp add: Let_def k_def)
      then show ?thesis
        by (simp add: rest total add_divide_distrib)
    qed
  qed
qed

lemma calculate_tiered_cost_per_token:
  assumes "sorted (map threshold tiers)" and "tiers \<noteq> []" and "threshold (hd tiers) \<le> cum"
    and "u \<noteq> 0" and "0 \<le> tokens"
  shows "calculate_tiered_cost tokens cum tiers u ct
           = Inr ((\<Sum>p \<in> {cum..<cum + tokens}. token_rate tiers ct p) / real_of_int u)"
proof -
  let ?k = "length (takeWhile (\<lambda>t. threshold t \<le> cum) tiers)"
  have pos: "0 < ?k" using assms(2,3) by (cases tiers) auto
  have le: "?k \<le> length tiers" by (rule length_takeWhile_le)
  have t: "?k - 1 < length tiers" using pos le by linarith
  have lo: "threshold (tiers ! (?k - 1)) \<le> cum"
    using takeWhile_prefix_holds[of "?k - 1" "\<lambda>t. threshold t \<le> cum" tiers] pos by simp
  have hi: "Suc (?k - 1) < length tiers \<longrightarrow> cum \<le> threshold (tiers ! Suc (?k - 1))"
    using nth_length_takeWhile[of "\<lambda>t. threshold t \<le> cum" tiers] pos by auto
  have sp: "spec_tiered_cost tiers u ct tokens cum = spec_charge tiers u ct (?k - 1) cum tokens"
    by (simp add: spec_tiered_cost_def spec_tier_of_takeWhile[OF assms(2,3)])
  show ?thesis
    unfolding calculate_tiered_cost_spec[OF assms(4,2,3)] sp
    using spec_charge_per_token[OF assms(1) t lo hi assms(5)] by simp
qed

lemma spec_tier_of_below:
  assumes "sorted (map threshold ts)" and "ts \<noteq> []" and "cum < threshold (hd ts)"
  shows "spec_tier_of ts cum = None"
proof -
  have "\<And>t. t < length ts \<Longrightarrow> \<not> threshold (ts ! t) \<le> cum"
  proof -
    fix t assume t: "t < length ts"
    have "threshold (ts ! 0) \<le> threshold (ts ! t)"
      using assms(1) t by (simp add: sorted_iff_nth_mono)
    moreover have "ts ! 0 = hd ts" using assms(2) by (simp add: hd_conv_nth)
    ultimately show "\<not> threshold (ts ! t) \<le> cum" using assms(3) by simp
  qed
  then show ?thesis by (auto simp: spec_tier_of_def find_None_iff)
qed

lemma find_start_tier_start_tier:
  assumes "sorted (map threshold ts)"
  shows "find_start_tier ts cum 0 0 = start_tier ts cum"
proof (cases "ts = []")
  case True
  then show ?thesis by (simp add: start_tier_def spec_tier_of_def)
next
  case ne: False
  show ?thesis
  proof (cases "threshold (hd ts) \<le> cum")
    case True
    have "0 < length (takeWhile (\<lambda>t. threshold t \<le> cum) ts)"
      using ne True by (cases ts) auto
    then show ?thesis
      by (simp add: find_start_tier_takeWhile Let_def start_tier_def
          spec_tier_of_takeWhile[OF ne True])
  next
    case False
    then have "takeWhile (\<lambda>t. threshold t \<le> cum) ts = []"
      using ne by (cases ts) auto
    moreover have "spec_tier_of ts cum = None"
      using spec_tier_of_below[OF assms ne] False by simp
    ultimately show ?thesis
      by (simp add: find_start_tier_takeWhile Let_def start_tier_def)
  qed
qed

lemma calculate_tiered_cost_amended:
  assumes "u \<noteq> 0" and "sorted (map threshold tiers)"
  shows "calculate_tiered_cost tokens cum tiers u ct
           = Inr (amended_tiered_cost tiers u ct tokens cum)"
proof (cases "tokens = 0 \<or> tiers = []")
  case True
  then have "spec_charge tiers u ct (start_tier tiers cum) cum tokens = 0"
    by (intro spec_charge_done) auto
  with True show ?thesis
    by (auto simp: calculate_tiered_cost_def amended_tiered_cost_def)
next
  case False
  then show ?thesis
    using assms
    by (simp add: calculate_tiered_cost_def amended_tiered_cost_def tier_loop_spec
        find_start_tier_start_tier)
qed

lemma amended_is_spec:
  assumes "tiers \<noteq> []" and "threshold (hd tiers) \<le> cum"
  shows "amended_tiered_cost tiers u ct tokens cum = spec_tiered_cost tiers u ct tokens cum"
  by (simp add: amended_tiered_cost_def start_tier_def spec_tiered_cost_def
      spec_tier_of_takeWhile[OF assms])

lemma example_cost:
  "calculate_cost example_cache ''OpenAI:gpt-x'' 500 0 800 0 = Inr (7 / 2, 0, 7 / 2)"
  by (simp add: calculate_cost_def example_cache_def load_entry_def opt_default_def
      example_tiers_def calculate_tiered_cost_def tier_loop.simps py_truediv_def tier_get_def
      Let_def)

text \<open>
  Claim C1, as stated, fails for a cumulative count below the first threshold: with
  thresholds 100, 200 and 300 and nothing used so far, no tier \<open>t\<close> has
  \<open>threshold[t] \<le> cumulative\<close>, yet 500 tokens are charged, from the first tier on
  (200 tokens at 10, 100 at 5 and 200 at 1 per 1000).
\<close>

theorem calculate_cost_below_first_threshold:
  "spec_tier_of (ptiers (the (below_cache ''OpenAI:gpt-y''))) 0 = None
   \<and> spec_tiered_cost (ptiers (the (below_cache ''OpenAI:gpt-y''))) 1000 ''input_cost'' 500 0 = 0
   \<and> calculate_cost below_cache ''OpenAI:gpt-y'' 500 0 0 0 = Inr (27 / 10, 0, 27 / 10)"
proof -
  have t: "ptiers (the (below_cache ''OpenAI:gpt-y'')) = below_tiers"
    by (simp add: below_cache_def load_entry_def opt_default_def below_tiers_def)
  have n: "spec_tier_of below_tiers 0 = None"
    by (simp add: spec_tier_of_def below_tiers_def upt_rec)
  have c: "calculate_cost below_cache ''OpenAI:gpt-y'' 500 0 0 0 = Inr (27 / 10, 0, 27 / 10)"
    by (simp add: calculate_cost_def below_cache_def load_entry_def opt_default_def
        below_tiers_def calculate_tiered_cost_def tier_loop.simps py_truediv_def tier_get_def
        Let_def)
  from n c show ?thesis by (simp add: t spec_tiered_cost_def)
qed

text \<open>
  Claim C1, amended. For every tiered-priced model with a non-zero unit (its tiers
  sorted by threshold, as \<open>_load_pricing\<close> leaves them), \<open>calculate_cost\<close> charges a
  call's tokens tier by tier, starting at the tier the cumulative count falls into,
  or at the first tier when the cumulative count is below the first threshold: it
  charges \<open>min(remaining, threshold[t+1] - cumulative)\<close> tokens at the rate of tier
  \<open>t\<close>, advances cumulative and remaining and goes on with the next tier, the final
  tier taking all that remains. Where the cumulative count is not below the first
  threshold this is the rule of the specification. With the tiers
  \<open>[{0, 10}, {1000, 5}]\<close> per 1000 tokens, 800 cumulative input tokens and 500 new
  ones, the input cost is exactly 3.50.
\<close>

theorem calculate_cost_tiered:
  assumes "cache model_key = Some p" and "ptype p = ''tiered''" and "punit p \<noteq> 0"
    and "sorted (map threshold (ptiers p))"
  shows "calculate_cost cache model_key input_tokens output_tokens cum_in cum_out =
           Inr (amended_tiered_cost (ptiers p) (punit p) ''input_cost'' input_tokens cum_in,
                amended_tiered_cost (ptiers p) (punit p) ''output_cost'' output_tokens cum_out,
                amended_tiered_cost (ptiers p) (punit p) ''input_cost'' input_tokens cum_in
                + amended_tiered_cost (ptiers p) (punit p) ''output_cost'' output_tokens cum_out)
         \<and> (ptiers p \<noteq> [] \<and> threshold (hd (ptiers p)) \<le> cum_in \<longrightarrow>
              amended_tiered_cost (ptiers p) (punit p) ''input_cost'' input_tokens cum_in
                = spec_tiered_cost (ptiers p) (punit p) ''input_cost'' input_tokens cum_in)
         \<and> (ptiers p \<noteq> [] \<and> threshold (hd (ptiers p)) \<le> cum_out \<longrightarrow>
              amended_tiered_cost (ptiers p) (punit p) ''output_cost'' output_tokens cum_out
                = spec_tiered_cost (ptiers p) (punit p) ''output_cost'' output_tokens cum_out)
         \<and> (ptiers p \<noteq> [] \<and> cum_in < threshold (hd (ptiers p)) \<longrightarrow>
              start_tier (ptiers p) cum_in = 0)
         \<and> calculate_cost example_cache ''OpenAI:gpt-x'' 500 0 800 0 = Inr (7 / 2, 0, 7 / 2)"
proof -
  have below: "ptiers p \<noteq> [] \<and> cum_in < threshold (hd (ptiers p)) \<longrightarrow>
      start_tier (ptiers p) cum_in = 0"
    using spec_tier_of_below[OF assms(4)] by (simp add: start_tier_def)
  show ?thesis
    using assms below example_cost
    by (simp add: calculate_cost_def calculate_tiered_cost_amended amended_is_spec)
qed

theorem calculate_cost_tiered_witness:
  "calculate_cost example_cache ''OpenAI:gpt-x'' 500 0 800 0 =
      Inr (amended_tiered_cost (sort_key threshold example_tiers) 1000 ''input_cost'' 500 800,
           amended_tiered_cost (sort_key threshold example_tiers) 1000 ''output_cost'' 0 0,
           amended_tiered_cost (sort_key threshold example_tiers) 1000 ''input_cost'' 500 800
           + amended_tiered_cost (sort_key threshold example_tiers) 1000 ''output_cost'' 0 0)
   \<and> amended_tiered_cost (sort_key threshold example_tiers) 1000 ''input_cost'' 500 800
       = spec_tiered_cost (sort_key threshold example_tiers) 1000 ''input_cost'' 500 800
   \<and> spec_tiered_cost (sort_key threshold example_tiers) 1000 ''input_cost'' 500 800 = 7 / 2"
proof -
  define p where "p = load_entry \<lparr>cfg_unit = Some 1000, cfg_tiers = Some example_tiers,
                    cfg_input_cost = None, cfg_output_cost = None\<rparr>"
  have c: "example_cache ''OpenAI:gpt-x'' = Some p" by (simp add: example_cache_def p_def)
  have t: "ptiers p = sort_key threshold example_tiers"
    and u: "punit p = 1000" and ty: "ptype p = ''tiered''"
    by (simp_all add: p_def load_entry_def opt_default_def)
  have so: "sorted (map threshold (ptiers p))" unfolding p_def by (rule load_entry_tiers_sorted)
  have ne: "ptiers p \<noteq> []" and h: "threshold (hd (ptiers p)) \<le> 800"
    by (simp_all add: t example_tiers_def)
  have nz: "punit p \<noteq> 0" by (simp add: u)
  have s: "spec_tiered_cost (sort_key threshold example_tiers) 1000 ''input_cost'' 500 800 = 7 / 2"
    by (simp add: spec_tiered_cost_def spec_tier_of_def example_tiers_def spec_charge.simps
        tier_get_def Let_def upt_rec)
  from calculate_cost_tiered[of example_cache "''OpenAI:gpt-x''" p 500 0 800 0] c ty nz so
  have a: "calculate_cost example_cache ''OpenAI:gpt-x'' 500 0 800 0 =
      Inr (amended_tiered_cost (ptiers p) (punit p) ''input_cost'' 500 800,
           amended_tiered_cost (ptiers p) (punit p) ''output_cost'' 0 0,
           amended_tiered_cost (ptiers p) (punit p) ''input_cost'' 500 800
           + amended_tiered_cost (ptiers p) (punit p) ''output_cost'' 0 0)"
    and b: "ptiers p \<noteq> [] \<and> threshold (hd (ptiers p)) \<le> 800 \<longrightarrow>
              amended_tiered_cost (ptiers p) (punit p) ''input_cost'' 500 800
                = spec_tiered_cost (ptiers p) (punit p) ''input_cost'' 500 800"
    by blast+
  from b ne h have b': "amended_tiered_cost (ptiers p) (punit p) ''input_cost'' 500 800
                = spec_tiered_cost (ptiers p) (punit p) ''input_cost'' 500 800" by blast
  from a b' s show ?thesis unfolding t u by blast
qed

subsection \<open>Models without pricing\<close>

text \<open>
  Claim C10. For a model key with no configured pricing, and for a pricing entry whose
  type is neither \<open>simple\<close> nor \<open>tiered\<close>, \<open>calculate_cost\<close> returns exactly
  \<open>(0.0, 0.0, 0.0)\<close> and raises nothing.
\<close>

theorem calculate_cost_unpriced:
  assumes "\<not> has_pricing cache model_key
           \<or> (\<exists>p. cache model_key = Some p \<and> ptype p \<noteq> ''simple'' \<and> ptype p \<noteq> ''tiered'')"
  shows "calculate_cost cache model_key input_tokens output_tokens cum_in cum_out = Inr (0, 0, 0)"
  using assms by (auto simp: calculate_cost_def has_pricing_def)

theorem calculate_cost_unpriced_witness:
  "\<not> has_pricing example_cache ''Mock:unknown''
   \<and> calculate_cost example_cache ''Mock:unknown'' 1200 340 5000 70 = Inr (0, 0, 0)"
proof -
  have h: "\<not> has_pricing example_cache ''Mock:unknown''"
    by (simp add: has_pricing_def example_cache_def)
  then have "\<not> has_pricing example_cache ''Mock:unknown''
      \<or> (\<exists>p. example_cache ''Mock:unknown'' = Some p \<and> ptype p \<noteq> ''simple'' \<and> ptype p \<noteq> ''tiered'')"
    by simp
  from calculate_cost_unpriced[OF this] h show ?thesis by simp
qed

section \<open>Verification of the token tracker\<close>

lemma track_usage_no_file:
  assumes "\<not> lock_held t" and "output_file t = None"
  shows "\<exists>t'. track_usage t stamp provider model input_tokens output_tokens profile ic oc tc = Some t'
          \<and> usage_history t' = usage_history t @
               [\<lparr>u_timestamp = stamp, u_provider = provider, u_model = model,
                 u_input_tokens = input_tokens, u_output_tokens = output_tokens,
                 u_total_tokens = input_tokens + output_tokens, u_profile = profile,
                 u_input_cost = ic, u_output_cost = oc, u_total_cost = tc\<rparr>]
          \<and> \<not> lock_held t'"
  using assms by (simp add: track_usage_def acquire_def release_def Let_def)

lemma set_output_file_returns:
  assumes "\<not> lock_held t"
  shows "\<exists>t'. set_output_file t f = Some t' \<and> output_file t' = Some f \<and> \<not> lock_held t'
          \<and> usage_history t' = usage_history t"
  using assms
  by (simp add: set_output_file_def save_to_file_def get_summary_def acquire_def release_def)

lemma track_usage_with_file_blocks:
  assumes "output_file t = Some f"
  shows "track_usage t stamp provider model input_tokens output_tokens profile ic oc tc = None"
proof (cases "lock_held t")
  case True
  then show ?thesis by (simp add: track_usage_def acquire_def)
next
  case False
  with assms show ?thesis
    by (simp add: track_usage_def acquire_def save_to_file_def get_summary_def Let_def)
qed

text \<open>
  Claim C9. After \<open>set_output_file\<close> (which returns, the lock being free), a call of
  \<open>track_usage\<close> does not return: it holds \<open>self._lock\<close> when it calls
  \<open>_save_to_file\<close>, whose \<open>get_summary\<close> acquires the same non-reentrant lock.
\<close>

theorem track_usage_after_set_output_file:
  "\<exists>t. set_output_file new_tracker ''token_usage.json'' = Some t
       \<and> track_usage t ''2025-01-01T00:00:00'' ''OpenAI'' ''gpt-x'' 10 5 None 0 0 0 = None"
proof -
  have "\<not> lock_held new_tracker" by (simp add: new_tracker_def)
  from set_output_file_returns[OF this, of "''token_usage.json''"]
  obtain t where t: "set_output_file new_tracker ''token_usage.json'' = Some t"
    and f: "output_file t = Some ''token_usage.json''" by blast
  from track_usage_with_file_blocks[OF f] t show ?thesis by blast
qed

section \<open>Verification of the steering channel\<close>

subsection \<open>Evaluation of the concrete inputs\<close>

lemma quiet_loads:
  "json_loads quiet_env line_check
     = Some (JObj [(''ts'', JInt 10), (''text'', JStr ''check the login function'')])"
  "json_loads quiet_env line_global
     = Some (JObj [(''ts'', JInt 20), (''text'', JStr ''audit the whole codebase'')])"
  "json_loads quiet_env line_later
     = Some (JObj [(''ts'', JInt 30), (''text'', JStr ''check the login function'')])"
  "json_loads quiet_env ''not json at all'' = None"
  "json_loads quiet_env ''ok'' = None"
  by (simp_all add: quiet_env_def example_loads_def line_check_def line_global_def
      line_later_def line_nan_def)

lemma strip_examples:
  "ascii_strip (line_check @ [CHR 0x0A]) = line_check"
  "ascii_strip line_check = line_check"
  "ascii_strip line_global = line_global"
  "ascii_strip line_later = line_later"
  "ascii_strip (''not json at all'' @ [CHR 0x0A]) = ''not json at all''"
  "ascii_strip [CHR 0x0A] = []"
  "ascii_strip ''ok'' = ''ok''"
  "ascii_strip ''check the login function'' = ''check the login function''"
  "ascii_strip ''audit the whole codebase'' = ''audit the whole codebase''"
  by (simp_all add: ascii_strip_def ascii_isspace_def line_check_def line_global_def
      line_later_def)

lemma quiet_strip: "str_strip quiet_env = ascii_strip"
  by (simp add: quiet_env_def)

lemma quiet_lower: "str_lower quiet_env = ascii_lower"
  by (simp add: quiet_env_def)

lemma quiet_int_float: "int_float quiet_env i = Some (Finite (real_of_int i))"
  by (simp add: quiet_env_def)

lemma line_nonempty: "line_check \<noteq> []" "line_global \<noteq> []" "line_later \<noteq> []"
  by (simp_all add: line_check_def line_global_def line_later_def)

lemma line_entries_examples:
  "line_entries quiet_env (line_check @ [CHR 0x0A])
     = [\<lparr>e_ts = Finite 10, e_text = ''check the login function''\<rparr>]"
  "line_entries quiet_env line_check
     = [\<lparr>e_ts = Finite 10, e_text = ''check the login function''\<rparr>]"
  "line_entries quiet_env line_global
     = [\<lparr>e_ts = Finite 20, e_text = ''audit the whole codebase''\<rparr>]"
  "line_entries quiet_env line_later
     = [\<lparr>e_ts = Finite 30, e_text = ''check the login function''\<rparr>]"
  "line_entries quiet_env (''not json at all'' @ [CHR 0x0A])
     = [\<lparr>e_ts = Finite 0, e_text = ''not json at all''\<rparr>]"
  "line_entries quiet_env [CHR 0x0A] = []"
  "line_entries quiet_env ''ok'' = [\<lparr>e_ts = Finite 0, e_text = ''ok''\<rparr>]"
  unfolding line_entries_def Let_def quiet_strip strip_examples
  by (simp_all add: quiet_loads line_nonempty float_or_zero_def obj_get_def text_of_obj_def
      quiet_strip strip_examples quiet_int_float)

lemma ex_entries:
  "all_steering_entries quiet_env example_log
     = [\<lparr>e_ts = Finite 10, e_text = ''check the login function''\<rparr>,
        \<lparr>e_ts = Finite 0, e_text = ''not json at all''\<rparr>]"
  unfolding all_steering_entries_def example_log_def list.map line_entries_examples by simp

subsection \<open>Comparison of floats\<close>






lemma f_le_not_lt: "f_le a b \<Longrightarrow> \<not> f_lt b a"
  by (cases a; cases b) simp_all

lemma f_lt_nonneg_truthy: "f_le (Finite 0) c \<Longrightarrow> f_lt c t \<Longrightarrow> f_truthy t"
  by (cases c; cases t) (simp_all add: f_truthy_def)

lemma f_le_lt_trans: "f_le a b \<Longrightarrow> f_lt b c \<Longrightarrow> f_le a c"
  by (cases a; cases b; cases c) simp_all

subsection \<open>The cursor\<close>

lemma consume_steer_cases:
  "get_last_consumed_steer_ts (consume_steer s t) = get_last_consumed_steer_ts s
   \<or> (get_last_consumed_steer_ts (consume_steer s t) = t
       \<and> f_lt (get_last_consumed_steer_ts s) t)"
  by (simp add: consume_steer_def set_last_consumed_steer_ts_def get_last_consumed_steer_ts_def)

lemma consume_steer_keeps_nonneg:
  assumes "f_le (Finite 0) (get_last_consumed_steer_ts s)"
  shows "f_le (Finite 0) (get_last_consumed_steer_ts (consume_steer s t))"
  using consume_steer_cases[of s t] assms f_le_lt_trans by metis

lemma consume_steer_writable:
  assumes "f_le (Finite 0) (get_last_consumed_steer_ts s)" and "cursor_writable s"
  shows "consume_steer s t
           = (if f_lt (get_last_consumed_steer_ts s) t then s\<lparr>cursor_file := Some t\<rparr> else s)"
  using assms f_lt_nonneg_truthy[of "get_last_consumed_steer_ts s" t]
  by (auto simp: consume_steer_def set_last_consumed_steer_ts_def)

lemma get_last_set: "get_last_consumed_steer_ts (s\<lparr>cursor_file := Some t\<rparr>) = t"
  by (simp add: get_last_consumed_steer_ts_def)





subsection \<open>Reading the steering log\<close>

lemma py_last_n_pos: "1 \<le> n \<Longrightarrow> py_last_n n xs = drop (length xs - nat n) xs"
  by (simp add: py_last_n_def)

lemma raw_line_kept:
  assumes "str_strip env line \<noteq> []" and "json_loads env (str_strip env line) = None"
  shows "line_entries env line = [\<lparr>e_ts = Finite 0, e_text = str_strip env line\<rparr>]"
  using assms by (simp add: line_entries_def Let_def)

lemma blank_line_skipped: "str_strip env line = [] \<Longrightarrow> line_entries env line = []"
  by (simp add: line_entries_def)

text \<open>
  Claim C5. The docstring of \<open>_read_steering_entries\<close> says that malformed lines are
  ignored, and so does the claim; the \<open>except\<close> branch of the loop appends them: of
  the three lines of the example log (a JSON directive, a line that is not JSON, a
  blank line), the line that is not JSON comes back as an entry with timestamp \<open>0.0\<close>
  and the raw line as its text.
\<close>

theorem read_steering_entries_keeps_raw_line:
  "json_loads quiet_env ''not json at all'' = None
   \<and> read_steering_entries quiet_env (idle_runner\<lparr>steering_file := Some example_log\<rparr>) 50
      = [\<lparr>e_ts = Finite 10, e_text = ''check the login function''\<rparr>,
         \<lparr>e_ts = Finite 0, e_text = ''not json at all''\<rparr>]"
proof -
  have "json_loads quiet_env ''not json at all'' = None"
    by (rule quiet_loads)
  then show ?thesis
    by (simp add: read_steering_entries_def idle_runner_def ex_entries py_last_n_def)
qed

section \<open>Verification of batch planning\<close>

subsection \<open>The newest urgent directive\<close>

lemma scan_urgent_find:
  "scan_urgent env c xs =
     map_option (\<lambda>e. \<lparr>e_ts = e_ts e, e_text = str_strip env (e_text e)\<rparr>)
       (find (\<lambda>e. \<not> f_le (e_ts e) c \<and> is_urgent env (str_strip env (e_text e))) xs)"
  by (induction xs) auto

lemma find_rev_last_filter:
  "find P (rev xs) = (if filter P xs = [] then None else Some (last (filter P xs)))"
  by (induction xs rule: rev_induct) auto

lemma find_latest_urgent_steer_newest:
  assumes "filter (\<lambda>e. \<not> f_le (e_ts e) (get_last_consumed_steer_ts s)
                        \<and> is_urgent env (str_strip env (e_text e)))
             (read_steering_entries env s 80) = us" and "us \<noteq> []"
  shows "find_latest_urgent_steer env s
           = Some \<lparr>e_ts = e_ts (last us), e_text = str_strip env (e_text (last us))\<rparr>"
  using assms by (simp add: find_latest_urgent_steer_def scan_urgent_find find_rev_last_filter)

lemma find_latest_urgent_steer_none:
  assumes "filter (\<lambda>e. \<not> f_le (e_ts e) (get_last_consumed_steer_ts s)
                        \<and> is_urgent env (str_strip env (e_text e)))
             (read_steering_entries env s 80) = []"
  shows "find_latest_urgent_steer env s = None"
  using assms by (simp add: find_latest_urgent_steer_def scan_urgent_find find_rev_last_filter)

lemma find_latest_urgent_steer_newer:
  "find_latest_urgent_steer env s = Some ent \<Longrightarrow>
     \<not> f_le (e_ts ent) (get_last_consumed_steer_ts s)"
  by (auto simp: find_latest_urgent_steer_def scan_urgent_find find_Some_iff)

lemma top_up_extends:
  "\<exists>more. fst (top_up env n ds prepared ids store) = prepared @ more"
proof (induction ds arbitrary: prepared ids store)
  case Nil
  then show ?case by simp
next
  case (Cons d ds)
  show ?case
  proof (cases "int (length prepared) \<ge> n")
    case True
    then show ?thesis by simp
  next
    case False
    obtain skip fid store' where p: "propose_step env store ids d = (skip, fid, store')"
      by (cases "propose_step env store ids d") auto
    show ?thesis
    proof (cases skip)
      case True
      with False p Cons.IH[of prepared ids store'] show ?thesis by simp
    next
      case nskip: False
      from Cons.IH[of "prepared @ [frame_of_cand d fid]" "add_id fid ids" store']
      obtain more where "fst (top_up env n ds (prepared @ [frame_of_cand d fid]) (add_id fid ids) store')
          = (prepared @ [frame_of_cand d fid]) @ more" by blast
      with False p nskip show ?thesis by simp
    qed
  qed
qed

lemma top_up_length:
  "int (length prepared) \<le> n \<Longrightarrow> int (length (fst (top_up env n ds prepared ids store))) \<le> n"
proof (induction ds arbitrary: prepared ids store)
  case Nil
  then show ?case by simp
next
  case (Cons d ds)
  show ?case
  proof (cases "int (length prepared) \<ge> n")
    case True
    with Cons.prems show ?thesis by simp
  next
    case False
    obtain skip fid store' where p: "propose_step env store ids d = (skip, fid, store')"
      by (cases "propose_step env store ids d") auto
    from False have l: "int (length (prepared @ [frame_of_cand d fid])) \<le> n" by simp
    show ?thesis
      using False p Cons.IH[OF Cons.prems, of ids store'] Cons.IH[OF l, of "add_id fid ids" store']
      by (cases skip) simp_all
  qed
qed

lemma py_take_length: "0 \<le> n \<Longrightarrow> int (length (py_take n xs)) \<le> n"
  by (simp add: py_take_def)

lemma plan_investigations_unfold:
  assumes "plan_urgent env s = (urgent, s0)"
  shows "plan_investigations env s n =
     (let prepared = urgent @ map frame_of_stored (plan_pending env s0 n);
          ids = foldr add_id (map s_frame_id (plan_pending env s0 n)) [];
          s1 = s0\<lparr>planner_calls := Suc (planner_calls s0)\<rparr>
      in if int (length prepared) \<ge> n then (Inr (py_take n prepared), s0)
         else (case plan_next env (planner_calls s0) (n - int (length prepared)) of
                 None \<Rightarrow> (Inl PlannerFailed, s1)
               | Some planned \<Rightarrow>
                   (Inr (fst (top_up env n planned prepared ids (plan_store s0))),
                    s1\<lparr>plan_store := snd (top_up env n planned prepared ids (plan_store s0))\<rparr>)))"
  using assms
  by (simp add: plan_investigations_def Let_def max_def split: option.splits prod.splits)

lemma plan_investigations_length:
  assumes "0 \<le> n" and "fst (plan_investigations env s n) = Inr batch"
  shows "int (length batch) \<le> n"
proof -
  obtain urgent s0 where u: "plan_urgent env s = (urgent, s0)" by (cases "plan_urgent env s") auto
  define prepared where "prepared = urgent @ map frame_of_stored (plan_pending env s0 n)"
  show ?thesis
  proof (cases "int (length prepared) \<ge> n")
    case True
    with assms show ?thesis
      unfolding plan_investigations_unfold[OF u] Let_def prepared_def[symmetric]
      by (auto simp: py_take_length)
  next
    case False
    then have le: "int (length prepared) \<le> n" by simp
    from False assms(2) show ?thesis
      unfolding plan_investigations_unfold[OF u] Let_def prepared_def[symmetric]
      using top_up_length[OF le]
      by (auto split: option.splits)
  qed
qed

lemma consume_steer_cursor:
  assumes "cursor_writable s" and "f_lt (get_last_consumed_steer_ts s) t"
    and "f_le (Finite 0) (get_last_consumed_steer_ts s)"
  shows "get_last_consumed_steer_ts (consume_steer s t) = t"
  using consume_steer_writable[OF assms(3,1), of t] assms(2) by (simp add: get_last_set)

lemma consume_steer_not_newer:
  "\<not> f_lt (get_last_consumed_steer_ts s) t \<Longrightarrow> consume_steer s t = s"
  by (simp add: consume_steer_def)

lemma f_nan_incomparable: "a = NaN \<or> b = NaN \<Longrightarrow> \<not> f_lt a b"
  by (cases a; cases b) simp_all

lemma plan_investigations_cursor:
  assumes "plan_urgent env s = (urgent, s0)"
  shows "cursor_file (snd (plan_investigations env s n)) = cursor_file s0"
  unfolding plan_investigations_unfold[OF assms] Let_def
  by (simp split: option.splits)

lemma hd_py_take: "1 \<le> n \<Longrightarrow> xs \<noteq> [] \<Longrightarrow> py_take n xs \<noteq> [] \<and> hd (py_take n xs) = hd xs"
  by (cases xs) (auto simp: py_take_def take_Cons')

lemma plan_investigations_head:
  assumes u: "plan_urgent env s = (x # xs, s0)" and n: "1 \<le> n"
    and b: "fst (plan_investigations env s n) = Inr batch"
  shows "batch \<noteq> [] \<and> hd batch = x"
proof -
  define prepared where "prepared = (x # xs) @ map frame_of_stored (plan_pending env s0 n)"
  have ne: "prepared \<noteq> []" and h: "hd prepared = x" by (simp_all add: prepared_def)
  show ?thesis
  proof (cases "int (length prepared) \<ge> n")
    case True
    with b have "batch = py_take n prepared"
      unfolding plan_investigations_unfold[OF u] Let_def prepared_def[symmetric] by simp
    with hd_py_take[OF n ne] h show ?thesis by simp
  next
    case False
    with b obtain planned ids st where "batch = fst (top_up env n planned prepared ids st)"
      unfolding plan_investigations_unfold[OF u] Let_def prepared_def[symmetric]
      by (auto split: option.splits)
    with top_up_extends[of env n planned prepared ids st] obtain more where "batch = prepared @ more"
      by auto
    with ne h show ?thesis by simp
  qed
qed


lemma concat_replicate_single: "concat (replicate n [a]) = replicate n a"
  by (induction n) auto

lemma scan_urgent_all_old:
  "\<forall>e \<in> set xs. f_le (e_ts e) c \<Longrightarrow> scan_urgent env c xs = None"
  by (induction xs) auto

lemma crowded_entries:
  "all_steering_entries quiet_env (line_check # replicate 80 ''ok'')
     = \<lparr>e_ts = Finite 10, e_text = ''check the login function''\<rparr>
       # replicate 80 \<lparr>e_ts = Finite 0, e_text = ''ok''\<rparr>"
  by (simp add: all_steering_entries_def line_entries_examples concat_replicate_single)

lemma crowded_read:
  "read_steering_entries quiet_env crowded_runner 80
     = replicate 80 \<lparr>e_ts = Finite 0, e_text = ''ok''\<rparr>"
  by (simp add: read_steering_entries_def crowded_runner_def idle_runner_def crowded_entries py_last_n_def)

lemma crowded_none: "find_latest_urgent_steer quiet_env crowded_runner = None"
  unfolding find_latest_urgent_steer_def crowded_read
  by (rule scan_urgent_all_old) (simp add: get_last_consumed_steer_ts_def crowded_runner_def idle_runner_def)

lemma check_is_urgent: "is_urgent quiet_env ''check the login function''"
  by (simp add: is_urgent_def any_in_def urgent_verbs_def quiet_lower ascii_lower_def
      lower_char_def)

lemma steered_read:
  "read_steering_entries quiet_env steered_runner 80
     = [\<lparr>e_ts = Finite 10, e_text = ''check the login function''\<rparr>,
        \<lparr>e_ts = Finite 0, e_text = ''not json at all''\<rparr>]"
  by (simp add: read_steering_entries_def steered_runner_def idle_runner_def ex_entries py_last_n_def)

lemma nan_read:
  "read_steering_entries quiet_env nan_runner 80
     = [\<lparr>e_ts = NaN, e_text = ''check the login function''\<rparr>]"
proof -
  have l: "json_loads quiet_env line_nan
     = Some (JObj [(''ts'', JFloat NaN), (''text'', JStr ''check the login function'')])"
    by (simp add: quiet_env_def example_loads_def line_check_def line_global_def
        line_later_def line_nan_def)
  have s: "ascii_strip line_nan = line_nan"
    by (simp add: ascii_strip_def ascii_isspace_def line_nan_def)
  have n: "line_nan \<noteq> []" by (simp add: line_nan_def)
  have "line_entries quiet_env line_nan
          = [\<lparr>e_ts = NaN, e_text = ''check the login function''\<rparr>]"
    unfolding line_entries_def Let_def quiet_strip s
    by (simp add: l n float_or_zero_def obj_get_def text_of_obj_def quiet_strip strip_examples
        f_truthy_def)
  then show ?thesis
    by (simp add: read_steering_entries_def nan_runner_def idle_runner_def
        all_steering_entries_def py_last_n_def)
qed

subsection \<open>The urgent frame comes first\<close>

text \<open>
  Claim C7, as stated, fails: only the 80 most recent entries of the log are read, so
  an unconsumed urgent directive that is followed by 80 other entries is not found and
  no frame is made for it.
\<close>

theorem plan_investigations_counterexample:
  "steering_file crowded_runner = Some (line_check # replicate 80 ''ok'')
   \<and> hd (all_steering_entries quiet_env (line_check # replicate 80 ''ok''))
       = \<lparr>e_ts = Finite 10, e_text = ''check the login function''\<rparr>
   \<and> get_last_consumed_steer_ts crowded_runner = Finite 0
   \<and> f_lt (get_last_consumed_steer_ts crowded_runner) (Finite 10)
   \<and> is_urgent quiet_env ''check the login function''
   \<and> plan_investigations quiet_env crowded_runner 3
       = (Inr [], crowded_runner\<lparr>planner_calls := 1\<rparr>)"
proof -
  have u: "plan_urgent quiet_env crowded_runner = ([], crowded_runner)"
    by (simp add: plan_urgent_def crowded_none)
  have p: "plan_pending quiet_env crowded_runner 3 = []"
    by (simp add: plan_pending_def crowded_runner_def idle_runner_def)
  have "plan_investigations quiet_env crowded_runner 3
          = (Inr [], crowded_runner\<lparr>planner_calls := 1\<rparr>)"
    unfolding plan_investigations_unfold[OF u] Let_def p
    by (simp add: quiet_env_def crowded_runner_def idle_runner_def)
  then show ?thesis
    by (simp add: crowded_entries check_is_urgent get_last_consumed_steer_ts_def
        crowded_runner_def idle_runner_def)
qed

text \<open>
  Claim C7, amended. The planner looks at the 80 most recent entries of the steering
  log and takes as unconsumed those whose timestamp is not less than or equal to the
  cursor: the timestamps greater than the cursor and, the comparison being that of
  floats, those that are NaN. If one of them matches the urgent classifier then, for a
  batch size of at least one, every batch the planner returns starts with an ad-hoc
  frame carrying the text of the newest such directive with priority 10. The directive
  is marked consumed, the cursor advancing to its timestamp, when that timestamp is
  greater than the cursor, the cursor is not negative and the cursor file can be
  written; a directive whose timestamp is NaN is never consumed: the cursor file is
  left as it was.
\<close>

theorem plan_investigations_urgent_first:
  assumes "filter (\<lambda>e. \<not> f_le (e_ts e) (get_last_consumed_steer_ts s)
                        \<and> is_urgent env (str_strip env (e_text e)))
             (read_steering_entries env s 80) = us"
    and "us \<noteq> []" and "1 \<le> n"
  shows "(\<forall>batch. fst (plan_investigations env s n) = Inr batch \<longrightarrow>
               batch \<noteq> [] \<and> hd batch = urgent_frame (str_strip env (e_text (last us)))
               \<and> f_goal (hd batch) = str_strip env (e_text (last us))
               \<and> f_priority (hd batch) = 10)
         \<and> (f_lt (get_last_consumed_steer_ts s) (e_ts (last us))
              \<and> f_le (Finite 0) (get_last_consumed_steer_ts s) \<and> cursor_writable s \<longrightarrow>
              get_last_consumed_steer_ts (snd (plan_investigations env s n)) = e_ts (last us))
         \<and> (e_ts (last us) = NaN \<or> get_last_consumed_steer_ts s = NaN \<longrightarrow>
              cursor_file (snd (plan_investigations env s n)) = cursor_file s)"
proof -
  let ?ent = "\<lparr>e_ts = e_ts (last us), e_text = str_strip env (e_text (last us))\<rparr>"
  have f: "find_latest_urgent_steer env s = Some ?ent"
    by (rule find_latest_urgent_steer_newest[OF assms(1,2)])
  then have u: "plan_urgent env s
      = ([urgent_frame (str_strip env (e_text (last us)))], consume_steer s (e_ts (last us)))"
    by (simp add: plan_urgent_def)
  have cf: "cursor_file (snd (plan_investigations env s n))
              = cursor_file (consume_steer s (e_ts (last us)))"
    using plan_investigations_cursor[OF u, of n] .
  then have g: "get_last_consumed_steer_ts (snd (plan_investigations env s n))
          = get_last_consumed_steer_ts (consume_steer s (e_ts (last us)))"
    by (simp add: get_last_consumed_steer_ts_def)
  have c: "get_last_consumed_steer_ts (snd (plan_investigations env s n)) = e_ts (last us)"
    if "f_lt (get_last_consumed_steer_ts s) (e_ts (last us))
          \<and> f_le (Finite 0) (get_last_consumed_steer_ts s) \<and> cursor_writable s"
    using that g consume_steer_cursor[of s "e_ts (last us)"] by simp
  have d: "cursor_file (snd (plan_investigations env s n)) = cursor_file s"
    if "e_ts (last us) = NaN \<or> get_last_consumed_steer_ts s = NaN"
    using that cf consume_steer_not_newer[of s "e_ts (last us)"]
      f_nan_incomparable[of "get_last_consumed_steer_ts s" "e_ts (last us)"] by auto
  have "\<And>batch. fst (plan_investigations env s n) = Inr batch \<Longrightarrow>
          batch \<noteq> [] \<and> hd batch = urgent_frame (str_strip env (e_text (last us)))"
    by (rule plan_investigations_head[OF u assms(3)])
  with c d show ?thesis by (auto simp: urgent_frame_def)
qed

theorem plan_investigations_urgent_first_witness:
  "plan_investigations quiet_env steered_runner 1
       = (Inr [urgent_frame ''check the login function''],
          steered_runner\<lparr>cursor_file := Some (Finite 10)\<rparr>)
   \<and> get_last_consumed_steer_ts (snd (plan_investigations quiet_env steered_runner 1))
       = Finite 10
   \<and> read_steering_entries quiet_env nan_runner 80
       = [\<lparr>e_ts = NaN, e_text = ''check the login function''\<rparr>]
   \<and> plan_investigations quiet_env nan_runner 1
       = (Inr [urgent_frame ''check the login function''], nan_runner)
   \<and> cursor_file (snd (plan_investigations quiet_env nan_runner 1)) = cursor_file nan_runner"
proof -
  let ?us = "[\<lparr>e_ts = Finite 10, e_text = ''check the login function''\<rparr>]"
  let ?ns = "[\<lparr>e_ts = NaN, e_text = ''check the login function''\<rparr>]"
  have g: "get_last_consumed_steer_ts steered_runner = Finite 0"
    and w: "cursor_writable steered_runner"
    and gn: "get_last_consumed_steer_ts nan_runner = Finite 0"
    by (simp_all add: get_last_consumed_steer_ts_def steered_runner_def nan_runner_def
        idle_runner_def)
  have f: "filter (\<lambda>e. \<not> f_le (e_ts e) (get_last_consumed_steer_ts steered_runner)
                        \<and> is_urgent quiet_env (str_strip quiet_env (e_text e)))
             (read_steering_entries quiet_env steered_runner 80) = ?us"
    by (simp add: steered_read g quiet_strip strip_examples check_is_urgent)
  have fn: "filter (\<lambda>e. \<not> f_le (e_ts e) (get_last_consumed_steer_ts nan_runner)
                        \<and> is_urgent quiet_env (str_strip quiet_env (e_text e)))
             (read_steering_entries quiet_env nan_runner 80) = ?ns"
    by (simp add: nan_read gn quiet_strip strip_examples check_is_urgent)
  have ne: "?us \<noteq> []" and nne: "?ns \<noteq> []" by simp_all
  have n: "(1::int) \<le> 1" by simp
  have z: "f_lt (get_last_consumed_steer_ts steered_runner) (e_ts (last ?us))
              \<and> f_le (Finite 0) (get_last_consumed_steer_ts steered_runner)
              \<and> cursor_writable steered_runner"
    by (simp add: g w)
  from plan_investigations_urgent_first[OF f ne n] z
  have c: "get_last_consumed_steer_ts (snd (plan_investigations quiet_env steered_runner 1))
             = Finite 10"
    by simp
  from plan_investigations_urgent_first[OF fn nne n]
  have d: "cursor_file (snd (plan_investigations quiet_env nan_runner 1))
             = cursor_file nan_runner"
    by simp
  have fu: "find_latest_urgent_steer quiet_env steered_runner
           = Some \<lparr>e_ts = Finite 10, e_text = ''check the login function''\<rparr>"
    using find_latest_urgent_steer_newest[OF f ne] by (simp add: quiet_strip strip_examples)
  have u: "plan_urgent quiet_env steered_runner
      = ([urgent_frame ''check the login function''], consume_steer steered_runner (Finite 10))"
    by (simp add: plan_urgent_def fu)
  have cs: "consume_steer steered_runner (Finite 10)
              = steered_runner\<lparr>cursor_file := Some (Finite 10)\<rparr>"
    by (simp add: consume_steer_def set_last_consumed_steer_ts_def g w f_truthy_def)
  have p1: "plan_investigations quiet_env steered_runner 1
       = (Inr [urgent_frame ''check the login function''],
          steered_runner\<lparr>cursor_file := Some (Finite 10)\<rparr>)"
    unfolding plan_investigations_unfold[OF u] Let_def
    by (simp add: py_take_def cs)
  have fun': "find_latest_urgent_steer quiet_env nan_runner
           = Some \<lparr>e_ts = NaN, e_text = ''check the login function''\<rparr>"
    using find_latest_urgent_steer_newest[OF fn nne] by (simp add: quiet_strip strip_examples)
  have un: "plan_urgent quiet_env nan_runner
      = ([urgent_frame ''check the login function''], nan_runner)"
    by (simp add: plan_urgent_def fun' consume_steer_def gn)
  have p2: "plan_investigations quiet_env nan_runner 1
       = (Inr [urgent_frame ''check the login function''], nan_runner)"
    unfolding plan_investigations_unfold[OF un] Let_def
    by (simp add: py_take_def)
  from p1 c nan_read p2 d show ?thesis by blast
qed

subsection \<open>The size of a batch\<close>

lemma consume_steer_frame:
  "time_up (consume_steer s t) = time_up s" "invoked (consume_steer s t) = invoked s"
  "steering_file (consume_steer s t) = steering_file s"
  "time_limit_minutes (consume_steer s t) = time_limit_minutes s"
  by (simp_all add: consume_steer_def set_last_consumed_steer_ts_def)

lemma plan_urgent_frame:
  "time_up (snd (plan_urgent env s)) = time_up s" "invoked (snd (plan_urgent env s)) = invoked s"
  by (simp_all add: plan_urgent_def consume_steer_frame split: option.splits)

lemma plan_investigations_frame:
  "time_up (snd (plan_investigations env s n)) = time_up s"
  "invoked (snd (plan_investigations env s n)) = invoked s"
proof -
  obtain urgent s0 where u: "plan_urgent env s = (urgent, s0)" by (cases "plan_urgent env s") auto
  from plan_urgent_frame[of env s] u have "time_up s0 = time_up s" "invoked s0 = invoked s" by simp_all
  then show "time_up (snd (plan_investigations env s n)) = time_up s"
    "invoked (snd (plan_investigations env s n)) = invoked s"
    unfolding plan_investigations_unfold[OF u] Let_def by (simp_all split: option.splits)
qed

lemma plan_with_retry_frame:
  "time_up (snd (plan_with_retry env s plan_n)) = time_up s"
  "invoked (snd (plan_with_retry env s plan_n)) = invoked s"
  by (simp_all add: plan_with_retry_def plan_investigations_frame split: prod.splits sum.splits)
     (metis plan_investigations_frame snd_conv)+

lemma plan_with_retry_length:
  assumes "fst (plan_with_retry env s plan_n) = Inr batch"
  shows "int (length batch) \<le> max 1 plan_n"
proof -
  have n: "0 \<le> max 1 plan_n" by simp
  show ?thesis
  proof (cases "plan_investigations env s (max 1 plan_n)")
    case (Pair r s')
    show ?thesis
    proof (cases r)
      case (Inl e)
      with Pair assms have "fst (plan_investigations env s' (max 1 plan_n)) = Inr batch"
        by (simp add: plan_with_retry_def)
      from plan_investigations_length[OF n this] show ?thesis .
    next
      case (Inr b)
      with Pair assms have "fst (plan_investigations env s (max 1 plan_n)) = Inr batch"
        by (simp add: plan_with_retry_def)
      from plan_investigations_length[OF n this] show ?thesis .
    qed
  qed
qed

lemma limit_reached_frame:
  "time_up (snd (limit_reached env s)) = time_up s" "invoked (snd (limit_reached env s)) = invoked s"
  by (simp_all add: limit_reached_def now_def split: option.splits)

lemma run_loop_empty_batch:
  assumes "\<not> fst (limit_reached env s)" and "\<not> time_up s"
    and "fst (plan_with_retry env (snd (limit_reached env s)) plan_n) = Inr []"
  shows "\<exists>s'. run_loop env plan_n (Suc k) s = Some (Inr ''completed'', s') \<and> invoked s' = invoked s"
proof -
  obtain s1 where l: "limit_reached env s = (False, s1)"
    using assms(1) by (cases "limit_reached env s") auto
  obtain s2 where p: "plan_with_retry env s1 plan_n = (Inr [], s2)"
    using assms(3) l by (cases "plan_with_retry env s1 plan_n") auto
  from limit_reached_frame[of env s] l have f1: "time_up s1 = time_up s" "invoked s1 = invoked s" by simp_all
  from plan_with_retry_frame[of env s1 plan_n] p have f2: "time_up s2 = time_up s1" "invoked s2 = invoked s1"
    by simp_all
  have "run_loop env plan_n (Suc k) s = Some (Inr (final_status s2), s2)"
    by (simp add: l p)
  with f1 f2 assms(2) show ?thesis by (simp add: final_status_def)
qed


text \<open>
  Claim C8. For every requested batch size \<open>n \<ge> 1\<close> the planner returns at most \<open>n\<close>
  items, whatever the steering log, the plan store and the external planner supply
  (so a batch of \<open>run\<close> has at most \<open>max(1, plan_n)\<close> items); and an empty batch ends
  the run with status \<open>completed\<close> without any call of the worker.
\<close>

theorem plan_investigations_at_most_n:
  assumes "1 \<le> n"
  shows "(\<forall>batch. fst (plan_investigations env s n) = Inr batch \<longrightarrow> int (length batch) \<le> n)
       \<and> (\<forall>batch. fst (plan_with_retry env s plan_n) = Inr batch \<longrightarrow>
             int (length batch) \<le> max 1 plan_n)
       \<and> (\<not> fst (limit_reached env s) \<and> \<not> time_up s
            \<and> fst (plan_with_retry env (snd (limit_reached env s)) plan_n) = Inr [] \<longrightarrow>
            (\<exists>s'. run_loop env plan_n (Suc k) s = Some (Inr ''completed'', s')
                  \<and> invoked s' = invoked s))"
proof (intro conjI allI impI)
  fix batch assume "fst (plan_investigations env s n) = Inr batch"
  with assms show "int (length batch) \<le> n"
    using plan_investigations_length[of n env s batch] by simp
next
  fix batch assume "fst (plan_with_retry env s plan_n) = Inr batch"
  then show "int (length batch) \<le> max 1 plan_n" by (rule plan_with_retry_length)
next
  assume "\<not> fst (limit_reached env s) \<and> \<not> time_up s
            \<and> fst (plan_with_retry env (snd (limit_reached env s)) plan_n) = Inr []"
  then show "\<exists>s'. run_loop env plan_n (Suc k) s = Some (Inr ''completed'', s') \<and> invoked s' = invoked s"
    using run_loop_empty_batch by blast
qed


lemma eager_plan:
  "fst (plan_investigations eager_env idle_runner 2)
     = Inr [frame_of_cand (cand_of ''A'') None, frame_of_cand (cand_of ''B'') None]"
proof -
  have r: "read_steering_entries eager_env idle_runner 80 = []"
    by (simp add: read_steering_entries_def idle_runner_def)
  have u: "plan_urgent eager_env idle_runner = ([], idle_runner)"
    by (simp add: plan_urgent_def find_latest_urgent_steer_def r)
  have p: "plan_pending eager_env idle_runner 2 = []"
    by (simp add: plan_pending_def idle_runner_def)
  show ?thesis
    unfolding plan_investigations_unfold[OF u] Let_def p
    by (simp add: eager_env_def quiet_env_def idle_runner_def propose_step_def add_id_def)
qed

lemma quiet_plan: "plan_investigations quiet_env idle_runner n = (if n \<le> 0 then (Inr [], idle_runner) else (Inr [], idle_runner\<lparr>planner_calls := 1\<rparr>))"
proof -
  have r: "read_steering_entries quiet_env idle_runner 80 = []"
    by (simp add: read_steering_entries_def idle_runner_def)
  have u: "plan_urgent quiet_env idle_runner = ([], idle_runner)"
    by (simp add: plan_urgent_def find_latest_urgent_steer_def r)
  have p: "plan_pending quiet_env idle_runner n = []"
    by (simp add: plan_pending_def idle_runner_def)
  show ?thesis
    unfolding plan_investigations_unfold[OF u] Let_def p
    by (simp add: quiet_env_def idle_runner_def py_take_def)
qed


theorem plan_investigations_at_most_n_witness:
  "fst (plan_investigations eager_env idle_runner 2)
     = Inr [frame_of_cand (cand_of ''A'') None, frame_of_cand (cand_of ''B'') None]
   \<and> int (length [frame_of_cand (cand_of ''A'') None, frame_of_cand (cand_of ''B'') None]) \<le> 2
   \<and> \<not> fst (limit_reached quiet_env idle_runner) \<and> \<not> time_up idle_runner
   \<and> fst (plan_with_retry quiet_env (snd (limit_reached quiet_env idle_runner)) 2) = Inr []
   \<and> (\<exists>s'. run_loop quiet_env 2 (Suc 0) idle_runner = Some (Inr ''completed'', s')
            \<and> invoked s' = invoked idle_runner)"
proof -
  have n: "(1::int) \<le> 2" by simp
  have l: "limit_reached quiet_env idle_runner = (False, idle_runner)"
    by (simp add: limit_reached_def idle_runner_def)
  have t: "\<not> time_up idle_runner" by (simp add: idle_runner_def)
  have p: "fst (plan_with_retry quiet_env (snd (limit_reached quiet_env idle_runner)) 2) = Inr []"
    by (simp add: l plan_with_retry_def quiet_plan)
  from plan_investigations_at_most_n[OF n, of eager_env idle_runner] eager_plan
  have a: "int (length [frame_of_cand (cand_of ''A'') None, frame_of_cand (cand_of ''B'') None]) \<le> 2"
    by blast
  from plan_investigations_at_most_n[OF n, of quiet_env idle_runner 2 0] l t p
  have b: "\<exists>s'. run_loop quiet_env 2 (Suc 0) idle_runner = Some (Inr ''completed'', s')
            \<and> invoked s' = invoked idle_runner"
    by simp
  from eager_plan a l t p b show ?thesis by simp
qed

section \<open>Verification of the execution loop\<close>

subsection \<open>Global and targeted steering\<close>

lemma py_in_sublist: "py_in pat s \<longleftrightarrow> sublist pat s"
  by (induction s) (auto simp: sublist_Cons_right)

lemma py_in_map: "py_in pat s \<Longrightarrow> py_in (map f pat) (map f s)"
  unfolding py_in_sublist sublist_def by (metis map_append)

lemma ascii_lower_keeps:
  assumes "py_in ''whole codebase'' txt"
  shows "py_in ''whole codebase'' (ascii_lower txt)"
proof -
  have "map lower_char ''whole codebase'' = ''whole codebase''"
    by (simp add: lower_char_def)
  with py_in_map[OF assms, of lower_char] show ?thesis by (simp add: ascii_lower_def)
qed


lemma whole_codebase_is_global:
  assumes "py_in ''whole codebase'' (str_lower env txt)"
  shows "is_global_steer env txt" and "is_urgent env txt"
proof -
  from assms have ne: "str_lower env txt \<noteq> []" by (cases "str_lower env txt") auto
  have "''whole codebase'' \<in> set global_markers" by (simp add: global_markers_def)
  with assms have a: "any_in global_markers (str_lower env txt)"
    by (auto simp: any_in_def list_ex_iff)
  with ne show "is_global_steer env txt" by (simp add: is_global_steer_def Let_def)
  from a show "is_urgent env txt" by (simp add: is_urgent_def)
qed







lemma no_limit: "time_limit_minutes s = None \<Longrightarrow> limit_reached env s = (False, s)"
  "time_limit_minutes s = None \<Longrightarrow> remaining_exhausted env s = (False, s)"
  by (simp_all add: limit_reached_def remaining_exhausted_def)



















lemma line_entries_cong:
  assumes a: "json_loads env = json_loads env'" and b: "str_float env = str_float env'"
    and c: "int_float env = int_float env'" and d: "str_strip env = str_strip env'"
  shows "line_entries env line = line_entries env' line"
  unfolding line_entries_def float_or_zero_def text_of_obj_def a b c d by (rule refl)

lemma find_latest_cong:
  assumes "json_loads env = json_loads env'" and "str_float env = str_float env'"
    and "int_float env = int_float env'" and st: "str_strip env = str_strip env'"
    and lo: "str_lower env = str_lower env'"
    and c: "steering_file s = steering_file s'" and d: "cursor_file s = cursor_file s'"
  shows "find_latest_urgent_steer env s = find_latest_urgent_steer env' s'"
proof -
  have e: "line_entries env = line_entries env'"
    using line_entries_cong[OF assms(1,2,3,4)] by blast
  have u: "is_urgent env = is_urgent env'"
    by (rule ext) (simp add: is_urgent_def lo)
  have sc: "scan_urgent env t xs = scan_urgent env' t xs" for t xs
    by (induction xs) (simp_all add: st u)
  show ?thesis
    unfolding find_latest_urgent_steer_def read_steering_entries_def all_steering_entries_def
      get_last_consumed_steer_ts_def c d e sc by (rule refl)
qed

lemma audit_is_urgent: "is_urgent quiet_env ''audit the whole codebase''"
  by (simp add: is_urgent_def any_in_def urgent_verbs_def quiet_lower ascii_lower_def
      lower_char_def)

lemma global_found:
  "find_latest_urgent_steer quiet_env global_runner
     = Some \<lparr>e_ts = Finite 20, e_text = ''audit the whole codebase''\<rparr>"
proof -
  have r: "read_steering_entries quiet_env global_runner 80
      = [\<lparr>e_ts = Finite 20, e_text = ''audit the whole codebase''\<rparr>]"
    by (simp add: read_steering_entries_def global_runner_def idle_runner_def all_steering_entries_def
        line_entries_examples py_last_n_def)
  show ?thesis
    unfolding find_latest_urgent_steer_def r
    by (simp add: get_last_consumed_steer_ts_def global_runner_def idle_runner_def quiet_strip
        strip_examples audit_is_urgent)
qed



text \<open>
  The whole path on a concrete run of one frame: the operator appends the global
  directive while the worker investigates goal \<open>A\<close>; the next callback requests the
  abort, and the frame is neither recorded nor completed.
\<close>

lemma exec_frame_global_abort:
  "\<exists>s'. exec_frame steered_env [] idle_runner (frame_of_cand (cand_of ''A'') None) = (Break, [], s')
        \<and> invoked s' = [''A''] \<and> results s' = [] \<and> completed_investigations s' = []
        \<and> cursor_file s' = Some (Finite 20)
        \<and> last_replan_steer s' = Some ''audit the whole codebase''"
proof -
  let ?item = "frame_of_cand (cand_of ''A'') None"
  define s3 where "s3 = idle_runner\<lparr>ticks := Suc 0\<rparr>"
  define s4 where "s4 = s3\<lparr>worker_calls := Suc 0, invoked := [''A''], steering_file := Some [line_global]\<rparr>"
  have ov: "steering_override steered_env idle_runner ?item = (?item, idle_runner)"
    by (simp add: steering_override_def find_latest_urgent_steer_def read_steering_entries_def idle_runner_def)
  have re: "remaining_exhausted steered_env idle_runner = (False, idle_runner)"
    by (simp add: no_limit idle_runner_def)
  have fid: "f_frame_id ?item = None" "f_goal ?item = ''A''" by (simp_all add: frame_of_cand_def cand_of_def)
  have nw: "now steered_env idle_runner = (0, s3)"
    by (simp add: now_def s3_def steered_env_def quiet_env_def idle_runner_def)
  have w0: "worker steered_env (worker_calls s3) ''A''
      = ([SteerArrives line_global, Callback ''decision''], Report 1)"
    by (simp add: steered_env_def s3_def idle_runner_def)
  have fl: "find_latest_urgent_steer steered_env s4
              = Some \<lparr>e_ts = Finite 20, e_text = ''audit the whole codebase''\<rparr>"
    using find_latest_cong[of steered_env quiet_env s4 global_runner] global_found
    by (simp add: steered_env_def s4_def s3_def global_runner_def idle_runner_def)
  have lim: "limit_reached steered_env s4 = (False, s4)"
    by (simp add: no_limit s4_def s3_def idle_runner_def)
  have gl: "is_global_steer steered_env ''audit the whole codebase''"
    by (rule whole_codebase_is_global)
       (simp add: steered_env_def quiet_env_def ascii_lower_keeps)
  have cbs: "cb_steer steered_env s4 =
      consume_steer (s4\<lparr>last_replan_steer := Some ''audit the whole codebase'',
                         abort_requested := True\<rparr>) (Finite 20)"
    using fl gl by (simp add: cb_steer_def s4_def s3_def idle_runner_def)
  define s5 where "s5 = consume_steer (s4\<lparr>last_replan_steer := Some ''audit the whole codebase'',
                         abort_requested := True\<rparr>) (Finite 20)"
  have cb1: "cb steered_env s4 ''decision'' = (None, s5)"
    by (simp add: cb_def lim cbs s5_def)
  have sa: "steer_arrives (s3\<lparr>worker_calls := Suc (worker_calls s3), invoked := invoked s3 @ [''A'']\<rparr>) line_global = s4"
    by (simp add: steer_arrives_def s4_def s3_def idle_runner_def)
  have inv: "investigate steered_env s3 ''A'' = (Returned 1, s5)"
    by (simp add: investigate_def w0 sa cb1)
  have ir: "investigate_retry steered_env s3 ''A'' = (Returned 1, s5)"
    by (simp add: investigate_retry_def inv)
  have s5v: "s5 = s4\<lparr>last_replan_steer := Some ''audit the whole codebase'', abort_requested := True,
                     cursor_file := Some (Finite 20)\<rparr>"
    by (simp add: s5_def consume_steer_def set_last_consumed_steer_ts_def get_last_consumed_steer_ts_def
        s4_def s3_def idle_runner_def f_truthy_def)
  have "exec_frame steered_env [] idle_runner ?item = (Break, [], s5\<lparr>abort_requested := False\<rparr>)"
    by (simp add: exec_frame_def ov re fid truthy_id_def update_frame_status_def nw ir after_report_def s5v)
  then show ?thesis
    by (simp add: s5v s4_def s3_def idle_runner_def)
qed

subsection \<open>The time limit\<close>

lemmas eval_defs = run_def now_def limit_reached_def remaining_exhausted_def plan_with_retry_def
  plan_investigations_def plan_urgent_def plan_pending_def find_latest_urgent_steer_def
  read_steering_entries_def get_last_consumed_steer_ts_def propose_step_def exec_frame_def
  steering_override_def truthy_id_def add_id_def update_frame_status_def update_status_def
  investigate_retry_def investigate_def after_report_def final_status_def cb_def cb_steer_def
  frame_of_cand_def frame_of_stored_def cand_of_def py_take_def Let_def
  spec_list_def spec_propose_def spec_get_def spec_update_status_def spec_frame_id_def

text \<open>
  Both checks outside the callback leave the loop without setting \<open>time_up\<close>: the
  check at the top of the \<open>while\<close> loop ends \<open>run\<close> with the status computed from the
  flag as it was, and the check before a frame breaks out of the batch only.
\<close>

lemma run_loop_limit_reached:
  assumes "fst (limit_reached env s)"
  shows "run_loop env plan_n (Suc k) s = Some (Inr (final_status s), snd (limit_reached env s))"
proof -
  obtain s1 where l: "limit_reached env s = (True, s1)"
    using assms by (cases "limit_reached env s") auto
  from limit_reached_frame(1)[of env s] l have "time_up s1 = time_up s" by simp
  then show ?thesis by (simp add: l final_status_def)
qed

lemma exec_frame_limit_reached:
  assumes "find_latest_urgent_steer env s = None" and "fst (remaining_exhausted env s)"
  shows "\<exists>s'. exec_frame env executed s item = (Break, executed, s')
          \<and> time_up s' = time_up s \<and> invoked s' = invoked s"
  using assms
  by (cases "remaining_exhausted env s")
     (auto simp: exec_frame_def steering_override_def remaining_exhausted_def now_def
        split: option.splits if_splits)

text \<open>
  Claim C2. With a limit of one minute, the loop does stop before starting a new
  frame once the limit has elapsed, but the status it reports is \<open>completed\<close>, not
  \<open>interrupted\<close>: both when the limit has elapsed at the first check (no frame is
  started) and when it elapses during the first of two planned frames (the second is
  not started).
\<close>

theorem run_deadline_reports_completed:
  "(\<exists>s'. run past_env 2 3 deadline_runner = Some (Inr ''completed'', s') \<and> invoked s' = [])
   \<and> (\<exists>s'. run deadline_env 2 3 deadline_runner = Some (Inr ''completed'', s')
            \<and> invoked s' = [''A''])"
  by (simp add: eval_defs past_env_def deadline_env_def quiet_env_def deadline_runner_def
      idle_runner_def numeral_3_eq_3)

text \<open>
  The sibling path: when the limit is seen inside the progress callback, \<open>time_up\<close>
  is set and the status is \<open>interrupted\<close>.
\<close>

lemma run_callback_reports_interrupted:
  "\<exists>s'. run callback_env 2 3 deadline_runner = Some (Inr ''interrupted'', s')
        \<and> invoked s' = [''A'']"
  by (simp add: eval_defs callback_env_def deadline_env_def quiet_env_def deadline_runner_def
      idle_runner_def numeral_3_eq_3)

subsection \<open>Duplicate frames\<close>

lemma update_status_log:
  "invoked (update_status env s i st) = invoked s"
  "plan_store s \<noteq> None \<Longrightarrow> status_log (update_status env s i st) = status_log s @ [(i, st)]"
  by (auto simp: update_status_def split: option.splits)

text \<open>
  Within one batch the rule holds: a frame whose id is in \<open>executed_frames\<close> is
  marked DROPPED and the worker is not called for it.
\<close>

lemma exec_frame_duplicate:
  assumes "find_latest_urgent_steer env s = None" and "\<not> fst (remaining_exhausted env s)"
    and "f_frame_id item = Some i" and "i \<noteq> []" and "i \<in> set executed"
  shows "exec_frame env executed s item
           = (Next, executed, update_status env (snd (remaining_exhausted env s)) i DROPPED)"
  using assms
  by (cases "remaining_exhausted env s")
     (simp add: exec_frame_def steering_override_def truthy_id_def update_frame_status_def)

lemma run_duplicate_in_batch:
  "\<exists>s'. run twice_env 2 2 loop_runner = Some (Inr ''completed'', s')
      \<and> invoked s' = [''G'']
      \<and> status_log s' = [(''frame:G'', IN_PROGRESS), (''frame:G'', DONE), (''frame:G'', DROPPED)]"
  by (simp add: eval_defs twice_env_def quiet_env_def loop_runner_def idle_runner_def
      numeral_2_eq_2)

text \<open>
  Claim C6. Across batches of the same run the rule does not hold: \<open>executed_frames\<close>
  is created anew for every planned batch, so a frame executed in the first batch and
  proposed again for the second is executed a second time, the worker being called
  twice for the same frame. This happens with the plan store of the specification
  (first run: the frame stays DROPPED and is never marked DROPPED by the loop) and
  with a store that accepts every change of status (second run: the frame is executed,
  dropped as a duplicate of its own batch, proposed again and executed again).
\<close>

theorem run_executes_frame_twice:
  "(\<exists>s'. run loop_env 1 3 loop_runner = Some (Inr ''completed'', s')
      \<and> invoked s' = [''G'', ''G'']
      \<and> status_log s' = [(''frame:G'', IN_PROGRESS), (''frame:G'', DONE),
                         (''frame:G'', IN_PROGRESS), (''frame:G'', DONE)])
   \<and> (\<exists>s'. run lenient_env 2 3 loop_runner = Some (Inr ''completed'', s')
      \<and> invoked s' = [''G'', ''G'']
      \<and> status_log s' = [(''frame:G'', IN_PROGRESS), (''frame:G'', DONE), (''frame:G'', DROPPED),
                         (''frame:G'', IN_PROGRESS), (''frame:G'', DONE)])"
  by (simp add: eval_defs loop_env_def lenient_env_def any_update_status_def quiet_env_def
      loop_runner_def idle_runner_def numeral_3_eq_3)

end
